theory Spec2Isabelle
  imports Main "HOL-Library.Word" "HOL-Library.Sublist"
begin

chapter \<open>The model\<close>

section \<open>Strings\<close>

text \<open>
  A JavaScript string is a sequence of UTF-16 code units: \<open>substring\<close>, \<open>split\<close> and the
  regular expressions of the source (none has the \<open>u\<close> flag) all count code units.
  \<open>js\<close> embeds an ASCII literal.
\<close>

type_synonym jschar = "16 word"
type_synonym jsstring = "jschar list"

definition js :: "string \<Rightarrow> jsstring" where
  "js s = map (\<lambda>c. of_nat (of_char c)) s"

section \<open>Protocol data and the editor's diagnostic\<close>

text \<open>
  \<open>Proto.Location\<close> is one-based. The declared type of \<open>start\<close> and \<open>end\<close> is
  \<open>Location\<close>, but the handler of config-file diagnostics tests both for absence, so they are
  optional here. \<open>code\<close> is \<open>number | undefined\<close>; the backend's codes are integers.
  \<open>reportsUnnecessary\<close> and \<open>reportsDeprecated\<close> are optional flags. A field whose name is
  a keyword of Isabelle or the name of a field of another record carries a prefix
  (\<open>diag_start\<close>, \<open>diag_end\<close> and \<open>diag_text\<close> for \<open>start\<close>, \<open>end\<close> and \<open>text\<close>; \<open>lsp_\<close> on the
  editor's diagnostic).
\<close>

record Location =
  line :: int
  offset :: int

record FileSpan =
  span_file :: jsstring
  span_start :: Location
  span_end :: Location

record DiagnosticRelatedInformation =
  span :: FileSpan
  ri_message :: jsstring

record ProtoDiagnostic =
  diag_start :: "Location option"
  diag_end :: "Location option"
  diag_text :: jsstring
  category :: jsstring
  reportsUnnecessary :: "bool option"
  reportsDeprecated :: "bool option"
  relatedInformation :: "DiagnosticRelatedInformation list option"
  code :: "int option"
  source :: "jsstring option"

record Position =
  pos_line :: int
  character :: int

record Range =
  range_start :: Position
  range_end :: Position

record LspLocation =
  uri :: jsstring
  loc_range :: Range

record LspRelatedInformation =
  location :: LspLocation
  message :: jsstring

datatype DiagnosticSeverity = Error | Warning | Information | Hint

datatype DiagnosticTag = Unnecessary | Deprecated

text \<open>
  The \<open>code\<close> field of the editor's diagnostic is in one of three states: the key is missing
  (\<open>undefined\<close>), it holds \<open>null\<close>, or it holds a number.
\<close>

datatype codeField = CodeUndefined | CodeNull | CodeNumber int

record Diagnostic =
  lsp_range :: Range
  tags :: "DiagnosticTag list option"
  lsp_message :: jsstring
  lsp_code :: codeField
  severity :: "DiagnosticSeverity option"
  reportDeprecated :: "bool option"
  reportUnnecessary :: "bool option"
  lsp_source :: "jsstring option"
  lsp_relatedInformation :: "LspRelatedInformation list option"
  filetype :: "jsstring option"

text \<open>
  The truth value JavaScript gives an optional flag. An optional number is truthy when it
  is present and not zero.
\<close>

definition truthy :: "bool option \<Rightarrow> bool" where
  "truthy v = (v = Some True)"

text \<open>
  An exception thrown by the code or by one of its collaborators, with its message.
\<close>

datatype error = Exception string

text \<open>
  \<open>Range.create\<close> and \<open>Diagnostic.create\<close> belong to coc.nvim, not to the sources.
  \<open>Range.create\<close> accepts four numbers that are all unsigned integers, from 0 to 2147483647,
  and on any other four numbers throws an error whose message starts with
  \<open>Range#create called with invalid arguments\<close>; the model keeps this start of the message.
  \<open>Diagnostic.create\<close> stores its arguments and leaves out a key whose argument is
  \<open>undefined\<close>.
\<close>

definition uinteger :: "int \<Rightarrow> bool" where
  "uinteger v \<longleftrightarrow> 0 \<le> v \<and> v \<le> 2147483647"

definition Range_create :: "int \<Rightarrow> int \<Rightarrow> int \<Rightarrow> int \<Rightarrow> error + Range" where
  "Range_create one two three four =
     (if uinteger one \<and> uinteger two \<and> uinteger three \<and> uinteger four
      then Inr \<lparr>range_start = \<lparr>pos_line = one, character = two\<rparr>,
                range_end = \<lparr>pos_line = three, character = four\<rparr>\<rparr>
      else Inl (Exception ''Range#create called with invalid arguments''))"

definition Diagnostic_create ::
  "Range \<Rightarrow> jsstring \<Rightarrow> DiagnosticSeverity \<Rightarrow> int option \<Rightarrow> Diagnostic" where
  "Diagnostic_create r m sev c =
     \<lparr>lsp_range = r, tags = None, lsp_message = m,
      lsp_code = (case c of None \<Rightarrow> CodeUndefined | Some n \<Rightarrow> CodeNumber n),
      severity = Some sev, reportDeprecated = None, reportUnnecessary = None,
      lsp_source = None, lsp_relatedInformation = None, filetype = None\<rparr>"

section \<open>Severity\<close>

text \<open>
  Modelled from the spec: the values of \<open>PConst.DiagnosticCategory\<close> (\<open>protocol.const\<close> is
  not among the sources). The spec names the categories error, warning, suggestion and
  message.
\<close>

definition DiagnosticCategory_error :: jsstring where
  "DiagnosticCategory_error = js ''error''"

definition DiagnosticCategory_warning :: jsstring where
  "DiagnosticCategory_warning = js ''warning''"

definition DiagnosticCategory_suggestion :: jsstring where
  "DiagnosticCategory_suggestion = js ''suggestion''"

text \<open>
  The seven code tables of \<open>utils/errorCodes\<close> are not among the sources; they are a
  parameter. \<open>styleCheckDiagnostics\<close> is the set built from them at load time.
\<close>

record errorCodes =
  variableDeclaredButNeverUsed :: "int list"
  propertyDeclaretedButNeverUsed :: "int list"
  allImportsAreUnused :: "int list"
  unreachableCode :: "int list"
  unusedLabel :: "int list"
  fallThroughCaseInSwitch :: "int list"
  notAllCodePathsReturnAValue :: "int list"

definition styleCheckDiagnostics :: "errorCodes \<Rightarrow> int set" where
  "styleCheckDiagnostics ec =
     set (variableDeclaredButNeverUsed ec @ propertyDeclaretedButNeverUsed ec @
          allImportsAreUnused ec @ unreachableCode ec @ unusedLabel ec @
          fallThroughCaseInSwitch ec @ notAllCodePathsReturnAValue ec)"

definition isStyleCheckDiagnostic :: "errorCodes \<Rightarrow> int option \<Rightarrow> bool" where
  "isStyleCheckDiagnostic ec c =
     (case c of None \<Rightarrow> False | Some n \<Rightarrow> n \<in> styleCheckDiagnostics ec)"

definition getDiagnosticSeverity ::
  "bool \<Rightarrow> errorCodes \<Rightarrow> ProtoDiagnostic \<Rightarrow> DiagnosticSeverity" where
  "getDiagnosticSeverity reportStyleCheckAsWarnings ec diagnostic =
     (if reportStyleCheckAsWarnings \<and> isStyleCheckDiagnostic ec (code diagnostic) \<and>
         category diagnostic = DiagnosticCategory_error
      then Warning
      else if category diagnostic = DiagnosticCategory_error then Error
      else if category diagnostic = DiagnosticCategory_warning then Warning
      else if category diagnostic = DiagnosticCategory_suggestion then Hint
      else Error)"

section \<open>Config-file diagnostics\<close>

text \<open>
  The function mapped over the diagnostics of a config file in the handler of
  \<open>onConfigDiagnosticsReceived\<close>. An exception of \<open>Range.create\<close> leaves the function.
\<close>

definition configDiagnosticToLsp ::
  "bool \<Rightarrow> errorCodes \<Rightarrow> ProtoDiagnostic \<Rightarrow> error + Diagnostic" where
  "configDiagnosticToLsp reportStyleCheckAsWarnings ec diag =
     (case (case (diag_start diag, diag_end diag) of
              (Some s, Some e) \<Rightarrow>
                Range_create (line s - 1) (offset s - 1) (line e - 1) (offset e - 1)
            | _ \<Rightarrow> Range_create 0 0 0 1) of
        Inl x \<Rightarrow> Inl x
      | Inr rng \<Rightarrow>
          (let sev = getDiagnosticSeverity reportStyleCheckAsWarnings ec diag
           in Inr (Diagnostic_create rng (diag_text diag) sev (code diag))))"

section \<open>Normalising a diagnostic\<close>

text \<open>
  \<open>typeConverters.Position.fromLocation\<close>, \<open>typeConverters.Location.fromTextSpan\<close> and the
  client's \<open>toResource\<close> are not among the sources. They are parameters, and each may throw.
\<close>

record converters =
  Position_fromLocation :: "Location option \<Rightarrow> error + Position"
  Location_fromTextSpan :: "jsstring \<Rightarrow> FileSpan \<Rightarrow> error + LspLocation"
  toResource :: "jsstring \<Rightarrow> error + jsstring"

fun mapE :: "('a \<Rightarrow> error + 'b) \<Rightarrow> 'a list \<Rightarrow> error + 'b list" where
  "mapE f [] = Inr []"
| "mapE f (x # xs) =
     (case f x of
        Inl e \<Rightarrow> Inl e
      | Inr y \<Rightarrow> (case mapE f xs of Inl e \<Rightarrow> Inl e | Inr ys \<Rightarrow> Inr (y # ys)))"

definition relatedToLsp ::
  "converters \<Rightarrow> DiagnosticRelatedInformation \<Rightarrow> error + LspRelatedInformation" where
  "relatedToLsp tc ri =
     (case toResource tc (span_file (span ri)) of
        Inl e \<Rightarrow> Inl e
      | Inr res \<Rightarrow>
          (case Location_fromTextSpan tc res (span ri) of
             Inl e \<Rightarrow> Inl e
           | Inr l \<Rightarrow> Inr \<lparr>location = l, message = ri_message ri\<rparr>))"

definition tsDiagnosticToLspDiagnostic ::
  "converters \<Rightarrow> bool \<Rightarrow> errorCodes \<Rightarrow> ProtoDiagnostic \<Rightarrow> error + Diagnostic" where
  "tsDiagnosticToLspDiagnostic tc reportStyleCheckAsWarnings ec diagnostic =
     (case Position_fromLocation tc (diag_start diagnostic) of
        Inl e \<Rightarrow> Inl e
      | Inr s \<Rightarrow>
     (case Position_fromLocation tc (diag_end diagnostic) of
        Inl e \<Rightarrow> Inl e
      | Inr en \<Rightarrow>
     (case (case relatedInformation diagnostic of
              None \<Rightarrow> Inr None
            | Some ris \<Rightarrow>
                (case mapE (relatedToLsp tc) ris of
                   Inl e \<Rightarrow> Inl e
                 | Inr rs \<Rightarrow> Inr (Some rs))) of
        Inl e \<Rightarrow> Inl e
      | Inr related \<Rightarrow>
          (let tags0 = [];
               tags1 = (if truthy (reportsUnnecessary diagnostic)
                        then tags0 @ [Unnecessary] else tags0);
               tags2 = (if truthy (reportsDeprecated diagnostic)
                        then tags1 @ [Deprecated] else tags1);
               tags3 = (if length tags2 \<noteq> 0 then Some tags2 else None)
           in Inr \<lparr>lsp_range = \<lparr>range_start = s, range_end = en\<rparr>,
                   tags = tags3,
                   lsp_message = diag_text diagnostic,
                   lsp_code = (case code diagnostic of
                                 None \<Rightarrow> CodeNull
                               | Some n \<Rightarrow> if n \<noteq> 0 then CodeNumber n else CodeNull),
                   severity = Some (getDiagnosticSeverity reportStyleCheckAsWarnings ec diagnostic),
                   reportDeprecated = reportsDeprecated diagnostic,
                   reportUnnecessary = reportsUnnecessary diagnostic,
                   lsp_source = source diagnostic,
                   lsp_relatedInformation = related,
                   filetype = None\<rparr>))))"

section \<open>Characters and regular-expression building blocks\<close>

abbreviation NUL :: jschar where "NUL \<equiv> 0x00"
abbreviation NEWLINE :: jschar where "NEWLINE \<equiv> 0x0A"
abbreviation ESC :: jschar where "ESC \<equiv> 0x1B"
abbreviation SPACE :: jschar where "SPACE \<equiv> 0x20"
abbreviation QUOTE :: jschar where "QUOTE \<equiv> 0x27"
abbreviation LPAREN :: jschar where "LPAREN \<equiv> 0x28"
abbreviation RPAREN :: jschar where "RPAREN \<equiv> 0x29"
abbreviation LT :: jschar where "LT \<equiv> 0x3C"
abbreviation GT :: jschar where "GT \<equiv> 0x3E"
abbreviation LBRACKET :: jschar where "LBRACKET \<equiv> 0x5B"
abbreviation BACKSLASH :: jschar where "BACKSLASH \<equiv> 0x5C"
abbreviation RBRACKET :: jschar where "RBRACKET \<equiv> 0x5D"
abbreviation BACKTICK :: jschar where "BACKTICK \<equiv> 0x60"

abbreviation FENCE :: jsstring where "FENCE \<equiv> [BACKTICK, BACKTICK, BACKTICK]"

text \<open>
  The icons, as the source file spells them: the page icon is the four code units
  U+011F U+0178 U+201C U+201E, the two link icons are U+011F U+0178 U+201D U+2014 and
  U+011F U+0178 U+0152.
\<close>

definition PAGE_ICON :: jsstring where
  "PAGE_ICON = [0x011F, 0x0178, 0x201C, 0x201E]"

definition LINK_ICON :: jsstring where
  "LINK_ICON = [0x011F, 0x0178, 0x201D, 0x2014]"

definition WEB_ICON :: jsstring where
  "WEB_ICON = [0x011F, 0x0178, 0x0152]"

text \<open>\<open>.\<close> matches every code unit but the four line terminators.\<close>

definition isDot :: "jschar \<Rightarrow> bool" where
  "isDot c = (c \<noteq> 0x0A \<and> c \<noteq> 0x0D \<and> c \<noteq> 0x2028 \<and> c \<noteq> 0x2029)"

text \<open>\<open>\s\<close>: the white space and line terminators of ECMAScript.\<close>

definition isSpace :: "jschar \<Rightarrow> bool" where
  "isSpace c =
     (c = 0x09 \<or> c = 0x0A \<or> c = 0x0B \<or> c = 0x0C \<or> c = 0x0D \<or> c = 0x20 \<or> c = 0xA0 \<or>
      c = 0x1680 \<or> (0x2000 \<le> c \<and> c \<le> 0x200A) \<or> c = 0x2028 \<or> c = 0x2029 \<or>
      c = 0x202F \<or> c = 0x205F \<or> c = 0x3000 \<or> c = 0xFEFF)"

text \<open>A literal at the head of the subject: the rest of the subject when it matches.\<close>

fun stripPrefix :: "'a list \<Rightarrow> 'a list \<Rightarrow> 'a list option" where
  "stripPrefix [] s = Some s"
| "stripPrefix (p # ps) [] = None"
| "stripPrefix (p # ps) (c # cs) = (if p = c then stripPrefix ps cs else None)"

text \<open>
  \<open>[\s\S]*?\<close> followed by a literal: the lazy quantifier takes no code unit, then one, and
  so on, until the literal follows. The result is what the quantifier took and the
  subject after the literal.
\<close>

fun lazyUntil :: "'a list \<Rightarrow> 'a list \<Rightarrow> ('a list \<times> 'a list) option" where
  "lazyUntil lit [] = (case stripPrefix lit [] of Some r \<Rightarrow> Some ([], r) | None \<Rightarrow> None)"
| "lazyUntil lit (c # cs) =
     (case stripPrefix lit (c # cs) of
        Some r \<Rightarrow> Some ([], r)
      | None \<Rightarrow> (case lazyUntil lit cs of Some (b, r) \<Rightarrow> Some (c # b, r) | None \<Rightarrow> None))"

text \<open>
  \<open>str.replace(/c/g, r)\<close> for a single code unit \<open>c\<close> and a replacement without
  \<open>$\<close> patterns.
\<close>

definition replaceChar :: "jschar \<Rightarrow> jsstring \<Rightarrow> jsstring \<Rightarrow> jsstring" where
  "replaceChar c r s = concat (map (\<lambda>x. if x = c then r else [x]) s)"

section \<open>replaceBackticksExceptCodeBlocks\<close>

text \<open>
  \<open>codeBlockRegex\<close> at the head of the subject: the block it matches and the rest.
\<close>

definition matchCodeBlock :: "jsstring \<Rightarrow> (jsstring \<times> jsstring) option" where
  "matchCodeBlock s =
     (case stripPrefix FENCE s of
        None \<Rightarrow> None
      | Some s' \<Rightarrow>
          (case lazyUntil FENCE s' of
             None \<Rightarrow> None
           | Some (body, rest) \<Rightarrow> Some (FENCE @ body @ FENCE, rest)))"

text \<open>Every match consumes at least one code unit, so each global replacement terminates.\<close>

lemma stripPrefix_length: "stripPrefix p s = Some r \<Longrightarrow> length s = length p + length r"
  by (induction p s rule: stripPrefix.induct) (auto split: if_splits)

lemma lazyUntil_length:
  "lazyUntil lit s = Some (b, r) \<Longrightarrow> length s = length b + length lit + length r"
  by (induction lit s arbitrary: b r rule: lazyUntil.induct)
     (auto split: option.splits dest: stripPrefix_length)

lemma matchCodeBlock_shorter: "matchCodeBlock s = Some (b, r) \<Longrightarrow> length r < length s"
  by (auto simp: matchCodeBlock_def split: option.splits
           dest!: stripPrefix_length lazyUntil_length)

text \<open>
  The first \<open>replace\<close>: every match of \<open>codeBlockRegex\<close>, from left to right, is pushed onto
  \<open>codeBlocks\<close> and replaced by the placeholder NUL. The result is \<open>textWithPlaceholders\<close> and
  \<open>codeBlocks\<close>.
\<close>

function extractCodeBlocks :: "jsstring \<Rightarrow> jsstring \<times> jsstring list" where
  "extractCodeBlocks [] = ([], [])"
| "extractCodeBlocks (c # cs) =
     (case matchCodeBlock (c # cs) of
        Some (block, rest) \<Rightarrow>
          (case extractCodeBlocks rest of (t, bs) \<Rightarrow> (NUL # t, block # bs))
      | None \<Rightarrow>
          (case extractCodeBlocks cs of (t, bs) \<Rightarrow> (c # t, bs)))"
  by pat_completeness auto
termination
  by (relation "measure length") (auto dest: matchCodeBlock_shorter)

text \<open>\<open>backtickRegex\<close> at the head of the subject: group 1 and the rest.\<close>

definition matchBacktickSpan :: "jsstring \<Rightarrow> (jsstring \<times> jsstring) option" where
  "matchBacktickSpan s =
     (case s of
        [] \<Rightarrow> None
      | c # cs \<Rightarrow>
          if c = BACKTICK then
            (let body = takeWhile (\<lambda>x. x \<noteq> BACKTICK) cs;
                 rest = dropWhile (\<lambda>x. x \<noteq> BACKTICK) cs
             in if body \<noteq> [] \<and> rest \<noteq> [] then Some (body, tl rest) else None)
          else None)"

lemma matchBacktickSpan_shorter: "matchBacktickSpan s = Some (b, r) \<Longrightarrow> length r < length s"
proof -
  assume a: "matchBacktickSpan s = Some (b, r)"
  then obtain c cs where s: "s = c # cs" by (cases s) (auto simp: matchBacktickSpan_def)
  have "length (dropWhile (\<lambda>x. x \<noteq> BACKTICK) cs) \<le> length cs"
    by (rule length_dropWhile_le)
  with a s show ?thesis
    by (auto simp: matchBacktickSpan_def Let_def split: if_splits)
qed

text \<open>
  The replacement \<open>"\u001b[1;34m$1\u001b[0m"\<close> for group 1, and the replacement of every match
  of \<open>backtickRegex\<close>.
\<close>

definition highlight :: "jsstring \<Rightarrow> jsstring" where
  "highlight g = [ESC] @ js ''[1;34m'' @ g @ [ESC] @ js ''[0m''"

function replaceBacktickSpans :: "jsstring \<Rightarrow> jsstring" where
  "replaceBacktickSpans [] = []"
| "replaceBacktickSpans (c # cs) =
     (case matchBacktickSpan (c # cs) of
        Some (g, rest) \<Rightarrow> highlight g @ replaceBacktickSpans rest
      | None \<Rightarrow> c # replaceBacktickSpans cs)"
  by pat_completeness auto
termination
  by (relation "measure length") (auto dest: matchBacktickSpan_shorter)

text \<open>
  The last \<open>replace\<close>: every NUL becomes \<open>codeBlocks.shift() || ""\<close>, the next block while
  there is one and the empty string after that.
\<close>

fun restoreCodeBlocks :: "jsstring \<Rightarrow> jsstring list \<Rightarrow> jsstring" where
  "restoreCodeBlocks [] bs = []"
| "restoreCodeBlocks (c # cs) bs =
     (if c = NUL then
        (case bs of
           [] \<Rightarrow> restoreCodeBlocks cs []
         | b # bs' \<Rightarrow> b @ restoreCodeBlocks cs bs')
      else c # restoreCodeBlocks cs bs)"

definition replaceBackticksExceptCodeBlocks :: "jsstring \<Rightarrow> jsstring" where
  "replaceBackticksExceptCodeBlocks txt =
     (case extractCodeBlocks txt of
        (textWithPlaceholders, codeBlocks) \<Rightarrow>
          (let replacedText =
                 replaceBacktickSpans
                   (replaceChar GT [BACKSLASH, GT]
                      (replaceChar LT [BACKSLASH, LT] textWithPlaceholders))
           in restoreCodeBlocks replacedText codeBlocks))"

text \<open>
  What the two replacements of \<open><\<close> and \<open>>\<close> amount to, written code unit by code unit:
  a backslash goes before each angle bracket.
\<close>

definition escapeAngles :: "jsstring \<Rightarrow> jsstring" where
  "escapeAngles s =
     concat (map (\<lambda>c. if c = LT then [BACKSLASH, LT]
                      else if c = GT then [BACKSLASH, GT] else [c]) s)"

section \<open>format\<close>

text \<open>
  The three colours and \<open>renderType\<close>. \<open>formatDiagnosticIntoMarkdown\<close> comes from the package
  pretty-ts-errors-markdown: it is a parameter of \<open>format\<close>.
\<close>

definition error :: "jsstring \<Rightarrow> jsstring" where
  "error str = [ESC] @ js ''[1;31m'' @ str @ [ESC] @ js ''[0m''"

definition warning :: "jsstring \<Rightarrow> jsstring" where
  "warning str = [ESC] @ js ''[1;32m'' @ str @ [ESC] @ js ''[0m''"

definition info :: "jsstring \<Rightarrow> jsstring" where
  "info str = [ESC] @ js ''[1;36m'' @ str @ [ESC] @ js ''[0m''"

fun renderType :: "DiagnosticSeverity \<Rightarrow> jsstring \<Rightarrow> jsstring" where
  "renderType Error = error"
| "renderType Warning = warning"
| "renderType Information = info"
| "renderType Hint = info"

datatype highlightType = prettytserr | typescript

record formatOptions =
  showLink :: bool
  codeBlockHighlightType :: highlightType

text \<open>\<open>.+?\<close> followed by a literal: the subject after the literal.\<close>

fun lazyDotPlusUntil :: "jsstring \<Rightarrow> jsstring \<Rightarrow> jsstring option" where
  "lazyDotPlusUntil lit [] = None"
| "lazyDotPlusUntil lit (c # cs) =
     (if isDot c then
        (case stripPrefix lit cs of
           Some r \<Rightarrow> Some r
         | None \<Rightarrow> lazyDotPlusUntil lit cs)
      else None)"

text \<open>Group 3 of the file-link expression, \<open>'?.+?ICON\]\<close>: the optional quote is tried first.\<close>

definition linkTail :: "jsstring \<Rightarrow> jsstring option" where
  "linkTail s =
     (case s of
        [] \<Rightarrow> lazyDotPlusUntil (PAGE_ICON @ [RBRACKET]) s
      | c # cs \<Rightarrow>
          if c = QUOTE then
            (case lazyDotPlusUntil (PAGE_ICON @ [RBRACKET]) cs of
               Some r \<Rightarrow> Some r
             | None \<Rightarrow> lazyDotPlusUntil (PAGE_ICON @ [RBRACKET]) s)
          else lazyDotPlusUntil (PAGE_ICON @ [RBRACKET]) s)"

text \<open>
  Group 2, \<open>[^' ]+\<close>, followed by group 3. The quantifier is greedy: a longer target is
  tried before a shorter one. \<open>acc\<close> is what the group has taken so far.
\<close>

fun greedyTarget :: "jsstring \<Rightarrow> jsstring \<Rightarrow> (jsstring \<times> jsstring) option" where
  "greedyTarget acc [] =
     (if acc = [] then None
      else (case linkTail [] of Some r \<Rightarrow> Some (acc, r) | None \<Rightarrow> None))"
| "greedyTarget acc (c # cs) =
     (if c \<noteq> QUOTE \<and> c \<noteq> SPACE then
        (case greedyTarget (acc @ [c]) cs of
           Some m \<Rightarrow> Some m
         | None \<Rightarrow>
             if acc = [] then None
             else (case linkTail (c # cs) of Some r \<Rightarrow> Some (acc, r) | None \<Rightarrow> None))
      else if acc = [] then None
      else (case linkTail (c # cs) of Some r \<Rightarrow> Some (acc, r) | None \<Rightarrow> None))"

text \<open>The file-link expression at the head of the subject: group 2 and the rest.\<close>

definition matchFileLink :: "jsstring \<Rightarrow> (jsstring \<times> jsstring) option" where
  "matchFileLink s =
     (case s of
        [] \<Rightarrow> None
      | c # cs \<Rightarrow>
          if c = LBRACKET then
            (case stripPrefix [QUOTE] cs of
               Some cs' \<Rightarrow>
                 (case greedyTarget [] cs' of
                    Some m \<Rightarrow> Some m
                  | None \<Rightarrow> greedyTarget [] cs)
             | None \<Rightarrow> greedyTarget [] cs)
          else None)"

lemma stripPrefix_le: "stripPrefix p s = Some r \<Longrightarrow> length r \<le> length s"
  by (drule stripPrefix_length) simp

lemma lazyDotPlusUntil_shorter: "lazyDotPlusUntil lit s = Some r \<Longrightarrow> length r < length s"
  by (induction lit s rule: lazyDotPlusUntil.induct)
     (auto split: if_splits option.splits dest: stripPrefix_le)

lemma linkTail_shorter: "linkTail s = Some r \<Longrightarrow> length r < length s"
  by (auto simp: linkTail_def simp del: lazyDotPlusUntil.simps
           split: list.splits if_splits option.splits dest!: lazyDotPlusUntil_shorter)

lemma greedyTarget_shorter: "greedyTarget acc s = Some (t, r) \<Longrightarrow> length r < length s"
  by (induction acc s rule: greedyTarget.induct)
     (auto split: if_splits option.splits dest: linkTail_shorter)

lemma matchFileLink_shorter: "matchFileLink s = Some (t, r) \<Longrightarrow> length r < length s"
  by (auto simp: matchFileLink_def split: list.splits if_splits option.splits
           dest!: greedyTarget_shorter stripPrefix_le)

function collapseFileLinks :: "jsstring \<Rightarrow> jsstring" where
  "collapseFileLinks [] = []"
| "collapseFileLinks (c # cs) =
     (case matchFileLink (c # cs) of
        Some (target, rest) \<Rightarrow>
          [LBRACKET] @ target @ [SPACE] @ PAGE_ICON @ [RBRACKET] @ collapseFileLinks rest
      | None \<Rightarrow> c # collapseFileLinks cs)"
  by pat_completeness auto
termination
  by (relation "measure length") (auto dest: matchFileLink_shorter)

text \<open>\<open>.*\)\<close>: the greedy quantifier gives back code units until a closing parenthesis follows.\<close>

fun greedyDotStarParen :: "jsstring \<Rightarrow> jsstring option" where
  "greedyDotStarParen [] = stripPrefix [RPAREN] []"
| "greedyDotStarParen (c # cs) =
     (if isDot c then
        (case greedyDotStarParen cs of
           Some r \<Rightarrow> Some r
         | None \<Rightarrow> stripPrefix [RPAREN] (c # cs))
      else stripPrefix [RPAREN] (c # cs))"

text \<open>The icon-link expression at the head of the subject: the rest after the match.\<close>

definition matchIconLink :: "jsstring \<Rightarrow> jsstring option" where
  "matchIconLink s =
     (case (case stripPrefix ([LBRACKET] @ LINK_ICON @ [RBRACKET, LPAREN]) s of
              Some s' \<Rightarrow> greedyDotStarParen s'
            | None \<Rightarrow> None) of
        Some r \<Rightarrow> Some r
      | None \<Rightarrow>
          (case stripPrefix ([LBRACKET] @ WEB_ICON @ [RBRACKET, LPAREN]) s of
             Some s' \<Rightarrow> greedyDotStarParen s'
           | None \<Rightarrow> None))"

lemma greedyDotStarParen_shorter: "greedyDotStarParen s = Some r \<Longrightarrow> length r < length s"
  by (induction s rule: greedyDotStarParen.induct) (auto split: if_splits option.splits)

lemma matchIconLink_shorter: "matchIconLink s = Some r \<Longrightarrow> length r < length s"
  by (auto simp: matchIconLink_def split: option.splits
           dest!: greedyDotStarParen_shorter stripPrefix_le)

function stripIconLinks :: "jsstring \<Rightarrow> jsstring" where
  "stripIconLinks [] = []"
| "stripIconLinks (c # cs) =
     (case matchIconLink (c # cs) of
        Some rest \<Rightarrow> stripIconLinks rest
      | None \<Rightarrow> c # stripIconLinks cs)"
  by pat_completeness auto
termination
  by (relation "measure length") (auto dest: matchIconLink_shorter)

text \<open>
  \<open>/(?<=(^\s*```))typescript/\<close>, not global: the only place the look-behind admits is right
  after the fence that follows the leading white space. \<open>fenceTag\<close> gives the white space
  and the text after the tag when the expression matches.
\<close>

definition fenceTag :: "jsstring \<Rightarrow> (jsstring \<times> jsstring) option" where
  "fenceTag ln =
     (case stripPrefix (FENCE @ js ''typescript'') (dropWhile isSpace ln) of
        Some r \<Rightarrow> Some (takeWhile isSpace ln, r)
      | None \<Rightarrow> None)"

text \<open>
  The callback mapped over the lines, in two parts: the three substitutions made on every
  line (\<open>substituteLine\<close>, with the last of them in \<open>retagFence\<close>), and before them the
  colouring of the line at index 0.
\<close>

definition retagFence :: "formatOptions \<Rightarrow> jsstring \<Rightarrow> jsstring" where
  "retagFence opt line3 =
     (if codeBlockHighlightType opt = prettytserr then
        (case fenceTag line3 of
           Some (ws, r) \<Rightarrow> ws @ FENCE @ js ''prettytserr'' @ r
         | None \<Rightarrow> line3)
      else
        (case fenceTag line3 of
           Some (ws, r) \<Rightarrow>
             ws @ FENCE @ js ''typescript'' @ [NEWLINE] @
               replicate (length ws) SPACE @ js ''type Type ='' @ r
         | None \<Rightarrow> line3))"

definition substituteLine :: "formatOptions \<Rightarrow> jsstring \<Rightarrow> jsstring" where
  "substituteLine opt line1 =
     (let line2 = collapseFileLinks line1;
          line3 = (if showLink opt = False then stripIconLinks line2 else line2)
      in retagFence opt line3)"

definition formatLine ::
  "formatOptions \<Rightarrow> DiagnosticSeverity option \<Rightarrow> nat \<Rightarrow> jsstring \<Rightarrow> jsstring" where
  "formatLine opt sev index line0 =
     substituteLine opt
       (if index = 0
        then renderType (case sev of None \<Rightarrow> Error | Some s \<Rightarrow> s) (drop 3 line0)
        else line0)"

fun splitOn :: "'a \<Rightarrow> 'a list \<Rightarrow> 'a list list" where
  "splitOn sep [] = [[]]"
| "splitOn sep (c # cs) =
     (if c = sep then [] # splitOn sep cs
      else (case splitOn sep cs of [] \<Rightarrow> [[c]] | l # ls \<Rightarrow> (c # l) # ls))"

fun joinWith :: "'a \<Rightarrow> 'a list list \<Rightarrow> 'a list" where
  "joinWith sep [] = []"
| "joinWith sep [l] = l"
| "joinWith sep (l # ls) = l @ sep # joinWith sep ls"

definition format ::
  "(Diagnostic \<Rightarrow> jsstring) \<Rightarrow> Diagnostic list \<Rightarrow> formatOptions \<Rightarrow> Diagnostic list" where
  "format formatDiagnosticIntoMarkdown diagnostics opt =
     map (\<lambda>diagnostic.
            let formatted =
                  joinWith NEWLINE
                    (map (\<lambda>(index, ln). formatLine opt (severity diagnostic) index ln)
                       (enumerate 0
                          (splitOn NEWLINE
                             (replaceBackticksExceptCodeBlocks
                                (formatDiagnosticIntoMarkdown diagnostic)))))
            in diagnostic\<lparr>lsp_message := formatted @ [NEWLINE, NEWLINE],
                           filetype := Some (js ''markdown'')\<rparr>)
         diagnostics"

definition formatDiagnostic ::
  "(Diagnostic \<Rightarrow> jsstring) \<Rightarrow> Diagnostic list \<Rightarrow> Diagnostic list" where
  "formatDiagnostic formatDiagnosticIntoMarkdown diagnostics =
     format formatDiagnosticIntoMarkdown diagnostics
       \<lparr>showLink = False, codeBlockHighlightType = prettytserr\<rparr>"

section \<open>The host: language providers and routing\<close>

text \<open>
  \<open>LanguageProvider\<close>, the service client and coc.nvim's \<open>Uri.parse\<close> are not among the
  sources. A provider is the three methods the host calls, each of which may throw;
  \<open>'doc\<close> is the client's document and \<open>'kind\<close> the \<open>DiagnosticKind\<close>.
\<close>

record ('doc, 'kind) LanguageProvider =
  handles :: "jsstring \<Rightarrow> 'doc \<Rightarrow> error + bool"
  handlesUri :: "jsstring \<Rightarrow> error + bool"
  lp_diagnosticsReceived :: "'kind \<Rightarrow> jsstring \<Rightarrow> Diagnostic list \<Rightarrow> error + unit"

record 'doc collaborators =
  getDocument :: "jsstring \<Rightarrow> error + 'doc option"
  Uri_parse :: "jsstring \<Rightarrow> error + jsstring"
  typeConverters :: converters
  errorCodeTables :: errorCodes
  formatDiagnosticIntoMarkdown :: "Diagnostic \<Rightarrow> jsstring"

text \<open>
  The fields of the host that the modelled methods read or write. \<open>languagePerId\<close> is a
  \<open>Map\<close>: its values come in insertion order. \<open>timer\<close> is the variable of the constructor
  that \<open>handleProjectChange\<close> closes over; it holds the handle of the last timer set.
\<close>

record ('doc, 'kind) TypeScriptServiceClientHost =
  languagePerId :: "(jsstring \<times> ('doc, 'kind) LanguageProvider) list"
  reportStyleCheckAsWarnings :: bool
  timer :: "nat option"

text \<open>\<open>Array.prototype.find\<close> with a predicate that may throw.\<close>

fun findE :: "('a \<Rightarrow> error + bool) \<Rightarrow> 'a list \<Rightarrow> error + 'a option" where
  "findE p [] = Inr None"
| "findE p (x # xs) =
     (case p x of
        Inl e \<Rightarrow> Inl e
      | Inr b \<Rightarrow> if b then Inr (Some x) else findE p xs)"

text \<open>The body of the \<open>try\<close> block of \<open>findLanguage\<close>.\<close>

definition lookupLanguage ::
  "'doc collaborators \<Rightarrow> ('doc, 'kind, 'z) TypeScriptServiceClientHost_scheme \<Rightarrow> jsstring \<Rightarrow>
     error + ('doc, 'kind) LanguageProvider option" where
  "lookupLanguage env this u =
     (case getDocument env u of
        Inl e \<Rightarrow> Inl e
      | Inr doc \<Rightarrow>
          (let languages = map snd (languagePerId this)
           in case doc of
                Some d \<Rightarrow> findE (\<lambda>language. handles language u d) languages
              | None \<Rightarrow>
                  findE (\<lambda>language.
                           case Uri_parse env u of
                             Inl e \<Rightarrow> Inl e
                           | Inr parsed \<Rightarrow> handlesUri language parsed)
                    languages))"

definition findLanguage ::
  "'doc collaborators \<Rightarrow> ('doc, 'kind, 'z) TypeScriptServiceClientHost_scheme \<Rightarrow> jsstring \<Rightarrow>
     ('doc, 'kind) LanguageProvider option" where
  "findLanguage env this u =
     (case lookupLanguage env this u of Inl e \<Rightarrow> None | Inr r \<Rightarrow> r)"

definition createMarkerData ::
  "'doc collaborators \<Rightarrow> ('doc, 'kind, 'z) TypeScriptServiceClientHost_scheme \<Rightarrow>
     ProtoDiagnostic list \<Rightarrow> error + Diagnostic list" where
  "createMarkerData env this diagnostics =
     (case mapE (tsDiagnosticToLspDiagnostic (typeConverters env)
                   (reportStyleCheckAsWarnings this) (errorCodeTables env)) diagnostics of
        Inl e \<Rightarrow> Inl e
      | Inr ds \<Rightarrow> Inr (formatDiagnostic (formatDiagnosticIntoMarkdown env) ds))"

text \<open>
  \<open>diagnosticsReceived\<close>: the result is the exception that leaves the method, or the
  deliveries it made (the provider, and the arguments of its \<open>diagnosticsReceived\<close>).
\<close>

definition diagnosticsReceived ::
  "'doc collaborators \<Rightarrow> ('doc, 'kind, 'z) TypeScriptServiceClientHost_scheme \<Rightarrow>
     'kind \<Rightarrow> jsstring \<Rightarrow> ProtoDiagnostic list \<Rightarrow>
     error + (('doc, 'kind) LanguageProvider \<times> 'kind \<times> jsstring \<times> Diagnostic list) list" where
  "diagnosticsReceived env this kind resource diagnostics =
     (case findLanguage env this resource of
        None \<Rightarrow> Inr []
      | Some language \<Rightarrow>
          (case createMarkerData env this diagnostics of
             Inl e \<Rightarrow> Inl e
           | Inr markers \<Rightarrow>
               (case lp_diagnosticsReceived language kind resource markers of
                  Inl e \<Rightarrow> Inl e
                | Inr _ \<Rightarrow> Inr [(language, kind, resource, markers)])))"

section \<open>The host: file events and the debounce timer\<close>

text \<open>
  What the host does to its collaborators, in order: \<open>diagnosticsManager.reInitialize()\<close>,
  \<open>client.execute('reloadProjects', ...)\<close>, and \<open>triggerAllDiagnostics()\<close> of the provider
  registered under an id.
\<close>

datatype effect = ReInitialize | ExecuteReloadProjects | TriggerAllDiagnostics jsstring

text \<open>
  The host together with the event loop it runs on: the clock in milliseconds, the timers
  that are set and not yet fired or cleared (handle and due time), the next fresh handle,
  and the effects so far, each with the time it happened.
\<close>

record ('doc, 'kind) world = "('doc, 'kind) TypeScriptServiceClientHost" +
  now :: nat
  pending :: "(nat \<times> nat) list"
  nextHandle :: nat
  log :: "(nat \<times> effect) list"

definition triggerAllDiagnostics :: "('doc, 'kind) world \<Rightarrow> ('doc, 'kind) world" where
  "triggerAllDiagnostics w =
     w\<lparr>log := log w @ map (\<lambda>(i, language). (now w, TriggerAllDiagnostics i)) (languagePerId w)\<rparr>"

definition reloadProjects :: "('doc, 'kind) world \<Rightarrow> ('doc, 'kind) world" where
  "reloadProjects w =
     triggerAllDiagnostics
       (w\<lparr>log := log w @ [(now w, ReInitialize), (now w, ExecuteReloadProjects)]\<rparr>)"

definition setTimeout :: "('doc, 'kind) world \<Rightarrow> nat \<Rightarrow> nat \<times> ('doc, 'kind) world" where
  "setTimeout w delay =
     (nextHandle w,
      w\<lparr>pending := pending w @ [(nextHandle w, now w + delay)],
        nextHandle := Suc (nextHandle w)\<rparr>)"

definition clearTimeout :: "('doc, 'kind) world \<Rightarrow> nat \<Rightarrow> ('doc, 'kind) world" where
  "clearTimeout w h = w\<lparr>pending := filter (\<lambda>p. fst p \<noteq> h) (pending w)\<rparr>"

definition handleProjectChange :: "('doc, 'kind) world \<Rightarrow> ('doc, 'kind) world" where
  "handleProjectChange w =
     (let w1 = (case timer w of Some h \<Rightarrow> clearTimeout w h | None \<Rightarrow> w)
      in case setTimeout w1 1500 of (h, w2) \<Rightarrow> w2\<lparr>timer := Some h\<rparr>)"

text \<open>
  The two watchers and the listeners the constructor registers on them. No listener is
  registered for the deletion of \<open>package.json\<close>.
\<close>

datatype watcher = configFileWatcher | packageFileWatcher

datatype fileEvent = onDidCreate | onDidDelete | onDidChange

fun fireFileEvent ::
  "watcher \<Rightarrow> fileEvent \<Rightarrow> ('doc, 'kind) world \<Rightarrow> ('doc, 'kind) world" where
  "fireFileEvent configFileWatcher onDidCreate w = reloadProjects w"
| "fireFileEvent configFileWatcher onDidDelete w = reloadProjects w"
| "fireFileEvent configFileWatcher onDidChange w = handleProjectChange w"
| "fireFileEvent packageFileWatcher onDidCreate w = reloadProjects w"
| "fireFileEvent packageFileWatcher onDidChange w = handleProjectChange w"
| "fireFileEvent packageFileWatcher onDidDelete w = w"

text \<open>
  The event loop up to time \<open>t\<close>: every timer due by then fires, in the order of the due
  times, at its due time. The only callback ever set is the one of \<open>handleProjectChange\<close>,
  which calls \<open>triggerAllDiagnostics\<close> and sets no timer.
\<close>

definition advanceTo :: "nat \<Rightarrow> ('doc, 'kind) world \<Rightarrow> ('doc, 'kind) world" where
  "advanceTo t w =
     (let due = filter (\<lambda>p. snd p \<le> t) (sort_key snd (pending w));
          w1 = fold (\<lambda>p v. triggerAllDiagnostics (v\<lparr>now := max (now v) (snd p)\<rparr>)) due
                 (w\<lparr>pending := filter (\<lambda>p. \<not> snd p \<le> t) (pending w)\<rparr>)
      in w1\<lparr>now := max (now w1) t\<rparr>)"

text \<open>A file event arriving at time \<open>t\<close>, and a sequence of them.\<close>

definition deliver ::
  "nat \<times> watcher \<times> fileEvent \<Rightarrow> ('doc, 'kind) world \<Rightarrow> ('doc, 'kind) world" where
  "deliver ev w = (case ev of (t, wt, e) \<Rightarrow> fireFileEvent wt e (advanceTo t w))"

definition run ::
  "(nat \<times> watcher \<times> fileEvent) list \<Rightarrow> ('doc, 'kind) world \<Rightarrow> ('doc, 'kind) world" where
  "run evs w = fold deliver evs w"

text \<open>
  A burst of content changes after an event at time \<open>t\<close>: every event is a change and
  arrives less than 1500 ms after the one before it.
\<close>

fun burst :: "nat \<Rightarrow> (nat \<times> watcher \<times> fileEvent) list \<Rightarrow> bool" where
  "burst t [] = True"
| "burst t (ev # evs) =
     (case ev of (t', wt, e) \<Rightarrow> e = onDidChange \<and> t \<le> t' \<and> t' < t + 1500 \<and> burst t' evs)"

text \<open>The state after a content change at time \<open>t\<close>: one timer is set, due 1500 ms later.\<close>

definition armed :: "('doc, 'kind) world \<Rightarrow> nat \<Rightarrow> bool" where
  "armed w t \<longleftrightarrow> (\<exists>h. pending w = [(h, t + 1500)] \<and> timer w = Some h \<and> now w = t)"

section \<open>Sample inputs\<close>

text \<open>Concrete inputs on which the properties below are instantiated.\<close>

definition sampleCodes :: errorCodes where
  "sampleCodes =
     \<lparr>variableDeclaredButNeverUsed = [6196, 6133],
      propertyDeclaretedButNeverUsed = [6138], allImportsAreUnused = [6192],
      unreachableCode = [7027], unusedLabel = [7028], fallThroughCaseInSwitch = [7029],
      notAllCodePathsReturnAValue = [7030]\<rparr>"

definition sampleDiagnostic :: "string \<Rightarrow> int option \<Rightarrow> ProtoDiagnostic" where
  "sampleDiagnostic cat c =
     \<lparr>diag_start = Some \<lparr>line = 5, offset = 3\<rparr>,
      diag_end = Some \<lparr>line = 5, offset = 10\<rparr>,
      diag_text = js ''unused'', category = js cat,
      reportsUnnecessary = Some True, reportsDeprecated = None, relatedInformation = None,
      code = c, source = None\<rparr>"

definition sampleConverters :: converters where
  "sampleConverters =
     \<lparr>Position_fromLocation =
        (\<lambda>l. case l of
               None \<Rightarrow> Inl (Exception ''TypeError'')
             | Some p \<Rightarrow> Inr \<lparr>pos_line = line p - 1, character = offset p - 1\<rparr>),
      Location_fromTextSpan =
        (\<lambda>r s. Inr \<lparr>uri = r, loc_range =
           \<lparr>range_start = \<lparr>pos_line = line (span_start s) - 1,
                            character = offset (span_start s) - 1\<rparr>,
            range_end = \<lparr>pos_line = line (span_end s) - 1,
                          character = offset (span_end s) - 1\<rparr>\<rparr>\<rparr>),
      toResource = (\<lambda>p. Inr (js ''file://'' @ p))\<rparr>"

definition sampleProvider :: "string \<Rightarrow> (unit, unit) LanguageProvider" where
  "sampleProvider ext =
     \<lparr>handles = (\<lambda>u d. Inr (suffix (js ext) u)),
      handlesUri = (\<lambda>u. Inr (suffix (js ext) u)),
      lp_diagnosticsReceived = (\<lambda>k r ds. Inr ())\<rparr>"

definition sampleCollaborators :: "unit collaborators" where
  "sampleCollaborators =
     \<lparr>getDocument =
        (\<lambda>u. if u = js ''bad'' then Inl (Exception ''getDocument'')
             else if u = js ''/proj/open.md'' then Inr (Some ())
             else Inr None),
      Uri_parse = (\<lambda>u. if u = js [] then Inl (Exception ''Uri.parse'') else Inr u),
      typeConverters = sampleConverters,
      errorCodeTables = sampleCodes,
      formatDiagnosticIntoMarkdown = lsp_message\<rparr>"

definition sampleWorld :: "(unit, unit) world" where
  "sampleWorld =
     \<lparr>languagePerId = [(js ''typescript'', sampleProvider ''.ts''),
                        (js ''javascript'', sampleProvider ''.js'')],
      reportStyleCheckAsWarnings = True, timer = None,
      now = 0, pending = [], nextHandle = 1, log = []\<rparr>"


chapter \<open>Properties\<close>

section \<open>Properties of the severity classifier\<close>

lemma js_simps [simp]: "js [] = []" "js (c # cs) = of_nat (of_char c) # js cs"
  by (simp_all add: js_def)

lemma category_distinct:
  "DiagnosticCategory_error \<noteq> DiagnosticCategory_warning"
  "DiagnosticCategory_error \<noteq> DiagnosticCategory_suggestion"
  "DiagnosticCategory_warning \<noteq> DiagnosticCategory_suggestion"
  by (simp_all add: DiagnosticCategory_error_def DiagnosticCategory_warning_def
        DiagnosticCategory_suggestion_def)

text \<open>
  C1. With the flag set, a style-check code and category error, the severity is Warning.
  Otherwise category error gives Error, warning gives Warning, suggestion gives Hint and
  every other category gives Error. With the flag off, a style-check error is an Error.
\<close>

theorem getDiagnosticSeverity_classifies:
  "(flag \<and> (\<exists>c. code d = Some c \<and> c \<in> styleCheckDiagnostics ec) \<and>
      category d = DiagnosticCategory_error \<longrightarrow>
        getDiagnosticSeverity flag ec d = Warning) \<and>
   (\<not> (flag \<and> (\<exists>c. code d = Some c \<and> c \<in> styleCheckDiagnostics ec)) \<and>
      category d = DiagnosticCategory_error \<longrightarrow>
        getDiagnosticSeverity flag ec d = Error) \<and>
   (category d = DiagnosticCategory_warning \<longrightarrow> getDiagnosticSeverity flag ec d = Warning) \<and>
   (category d = DiagnosticCategory_suggestion \<longrightarrow> getDiagnosticSeverity flag ec d = Hint) \<and>
   (category d \<noteq> DiagnosticCategory_error \<and> category d \<noteq> DiagnosticCategory_warning \<and>
      category d \<noteq> DiagnosticCategory_suggestion \<longrightarrow>
        getDiagnosticSeverity flag ec d = Error) \<and>
   ((\<exists>c. code d = Some c \<and> c \<in> styleCheckDiagnostics ec) \<and>
      category d = DiagnosticCategory_error \<longrightarrow>
        getDiagnosticSeverity False ec d = Error)"
  using category_distinct
  by (auto simp: getDiagnosticSeverity_def isStyleCheckDiagnostic_def split: option.splits)

theorem getDiagnosticSeverity_classifies_witness:
  "getDiagnosticSeverity True sampleCodes (sampleDiagnostic ''error'' (Some 6133)) = Warning \<and>
   getDiagnosticSeverity False sampleCodes (sampleDiagnostic ''error'' (Some 6133)) = Error \<and>
   getDiagnosticSeverity True sampleCodes (sampleDiagnostic ''error'' (Some 2322)) = Error \<and>
   getDiagnosticSeverity True sampleCodes (sampleDiagnostic ''warning'' (Some 6133)) = Warning \<and>
   getDiagnosticSeverity True sampleCodes (sampleDiagnostic ''suggestion'' (Some 6133)) = Hint \<and>
   getDiagnosticSeverity True sampleCodes (sampleDiagnostic ''message'' None) = Error"
  using getDiagnosticSeverity_classifies [of True "sampleDiagnostic ''error'' (Some 6133)" sampleCodes]
    getDiagnosticSeverity_classifies [of False "sampleDiagnostic ''error'' (Some 6133)" sampleCodes]
    getDiagnosticSeverity_classifies [of True "sampleDiagnostic ''error'' (Some 2322)" sampleCodes]
    getDiagnosticSeverity_classifies [of True "sampleDiagnostic ''warning'' (Some 6133)" sampleCodes]
    getDiagnosticSeverity_classifies [of True "sampleDiagnostic ''suggestion'' (Some 6133)" sampleCodes]
    getDiagnosticSeverity_classifies [of True "sampleDiagnostic ''message'' None" sampleCodes]
  by (simp add: sampleCodes_def sampleDiagnostic_def styleCheckDiagnostics_def
        DiagnosticCategory_error_def DiagnosticCategory_warning_def
        DiagnosticCategory_suggestion_def)

section \<open>Properties of the coordinate conversion\<close>

text \<open>
  C2, as stated, fails on a span that is present and malformed: with line 0 and offset 0
  at the start, the handler of config-file diagnostics calls \<open>Range.create\<close> with -1, which
  throws. No range is returned, and the conversion fails.
\<close>

theorem configDiagnostic_range_counterexample:
  "configDiagnosticToLsp True sampleCodes
     ((sampleDiagnostic ''error'' (Some 6133))\<lparr>diag_start := Some \<lparr>line = 0, offset = 0\<rparr>\<rparr>) =
   Inl (Exception ''Range#create called with invalid arguments'')"
  by (simp add: configDiagnosticToLsp_def Range_create_def uinteger_def sampleDiagnostic_def)

text \<open>
  C2, amended. In the handler of config-file diagnostics the range is (0,0)-(0,1) when the
  start or the end of the span is absent, and the handler does not fail there. When both
  are present and every line and offset is at least 1 and at most 2147483648, the range
  is each line and offset of both endpoints less one; on any other line or offset the
  handler throws. In \<open>tsDiagnosticToLspDiagnostic\<close> the range is made of what the converter
  gives for the two endpoints: with a converter that takes one off the line and the
  offset (\<open>typeConverters.Position.fromLocation\<close> is not among the sources), it is again
  each line and offset less one.
\<close>

theorem configDiagnostic_range:
  "(diag_start d = None \<or> diag_end d = None \<longrightarrow>
      map_sum id lsp_range (configDiagnosticToLsp flag ec d) =
        Inr \<lparr>range_start = \<lparr>pos_line = 0, character = 0\<rparr>,
             range_end = \<lparr>pos_line = 0, character = 1\<rparr>\<rparr>) \<and>
   (\<forall>s e. diag_start d = Some s \<and> diag_end d = Some e \<and>
      1 \<le> line s \<and> line s \<le> 2147483648 \<and> 1 \<le> offset s \<and> offset s \<le> 2147483648 \<and>
      1 \<le> line e \<and> line e \<le> 2147483648 \<and> 1 \<le> offset e \<and> offset e \<le> 2147483648 \<longrightarrow>
      map_sum id lsp_range (configDiagnosticToLsp flag ec d) =
        Inr \<lparr>range_start = \<lparr>pos_line = line s - 1, character = offset s - 1\<rparr>,
             range_end = \<lparr>pos_line = line e - 1, character = offset e - 1\<rparr>\<rparr>) \<and>
   (\<forall>s e. diag_start d = Some s \<and> diag_end d = Some e \<and>
      \<not> (1 \<le> line s \<and> line s \<le> 2147483648 \<and> 1 \<le> offset s \<and> offset s \<le> 2147483648 \<and>
         1 \<le> line e \<and> line e \<le> 2147483648 \<and> 1 \<le> offset e \<and> offset e \<le> 2147483648) \<longrightarrow>
      configDiagnosticToLsp flag ec d =
        Inl (Exception ''Range#create called with invalid arguments'')) \<and>
   (\<forall>tc s e n. diag_start d = Some s \<and> diag_end d = Some e \<and>
      Position_fromLocation tc (Some s) =
        Inr \<lparr>pos_line = line s - 1, character = offset s - 1\<rparr> \<and>
      Position_fromLocation tc (Some e) =
        Inr \<lparr>pos_line = line e - 1, character = offset e - 1\<rparr> \<and>
      tsDiagnosticToLspDiagnostic tc flag ec d = Inr n \<longrightarrow>
      lsp_range n =
        \<lparr>range_start = \<lparr>pos_line = line s - 1, character = offset s - 1\<rparr>,
         range_end = \<lparr>pos_line = line e - 1, character = offset e - 1\<rparr>\<rparr>)"
proof (intro conjI allI impI)
  assume "diag_start d = None \<or> diag_end d = None"
  then show "map_sum id lsp_range (configDiagnosticToLsp flag ec d) =
        Inr \<lparr>range_start = \<lparr>pos_line = 0, character = 0\<rparr>,
             range_end = \<lparr>pos_line = 0, character = 1\<rparr>\<rparr>"
    by (auto simp: configDiagnosticToLsp_def Diagnostic_create_def Range_create_def
          uinteger_def Let_def split: option.splits)
next
  fix s e
  assume "diag_start d = Some s \<and> diag_end d = Some e \<and>
      1 \<le> line s \<and> line s \<le> 2147483648 \<and> 1 \<le> offset s \<and> offset s \<le> 2147483648 \<and>
      1 \<le> line e \<and> line e \<le> 2147483648 \<and> 1 \<le> offset e \<and> offset e \<le> 2147483648"
  then show "map_sum id lsp_range (configDiagnosticToLsp flag ec d) =
        Inr \<lparr>range_start = \<lparr>pos_line = line s - 1, character = offset s - 1\<rparr>,
             range_end = \<lparr>pos_line = line e - 1, character = offset e - 1\<rparr>\<rparr>"
    by (simp add: configDiagnosticToLsp_def Diagnostic_create_def Range_create_def
          uinteger_def Let_def)
next
  fix s e
  assume "diag_start d = Some s \<and> diag_end d = Some e \<and>
      \<not> (1 \<le> line s \<and> line s \<le> 2147483648 \<and> 1 \<le> offset s \<and> offset s \<le> 2147483648 \<and>
         1 \<le> line e \<and> line e \<le> 2147483648 \<and> 1 \<le> offset e \<and> offset e \<le> 2147483648)"
  then show "configDiagnosticToLsp flag ec d =
        Inl (Exception ''Range#create called with invalid arguments'')"
    by (auto simp: configDiagnosticToLsp_def Range_create_def uinteger_def)
next
  fix tc s e n
  assume "diag_start d = Some s \<and> diag_end d = Some e \<and>
      Position_fromLocation tc (Some s) =
        Inr \<lparr>pos_line = line s - 1, character = offset s - 1\<rparr> \<and>
      Position_fromLocation tc (Some e) =
        Inr \<lparr>pos_line = line e - 1, character = offset e - 1\<rparr> \<and>
      tsDiagnosticToLspDiagnostic tc flag ec d = Inr n"
  then show "lsp_range n =
        \<lparr>range_start = \<lparr>pos_line = line s - 1, character = offset s - 1\<rparr>,
         range_end = \<lparr>pos_line = line e - 1, character = offset e - 1\<rparr>\<rparr>"
    by (auto simp: tsDiagnosticToLspDiagnostic_def Let_def split: sum.splits)
qed

theorem configDiagnostic_range_witness:
  "map_sum id lsp_range
     (configDiagnosticToLsp True sampleCodes (sampleDiagnostic ''error'' (Some 6133))) =
     Inr \<lparr>range_start = \<lparr>pos_line = 4, character = 2\<rparr>,
          range_end = \<lparr>pos_line = 4, character = 9\<rparr>\<rparr> \<and>
   map_sum id lsp_range
     (configDiagnosticToLsp True sampleCodes
        ((sampleDiagnostic ''error'' (Some 6133))\<lparr>diag_end := None\<rparr>)) =
     Inr \<lparr>range_start = \<lparr>pos_line = 0, character = 0\<rparr>,
          range_end = \<lparr>pos_line = 0, character = 1\<rparr>\<rparr> \<and>
   configDiagnosticToLsp True sampleCodes
     ((sampleDiagnostic ''error'' (Some 6133))\<lparr>diag_end := Some \<lparr>line = 5, offset = 0\<rparr>\<rparr>) =
     Inl (Exception ''Range#create called with invalid arguments'') \<and>
   map_sum id lsp_range
     (tsDiagnosticToLspDiagnostic sampleConverters True sampleCodes
        (sampleDiagnostic ''error'' (Some 6133))) =
     Inr \<lparr>range_start = \<lparr>pos_line = 4, character = 2\<rparr>,
          range_end = \<lparr>pos_line = 4, character = 9\<rparr>\<rparr>"
proof -
  let ?d = "sampleDiagnostic ''error'' (Some 6133)"
  note t = configDiagnostic_range [of ?d True sampleCodes]
  have 1: "map_sum id lsp_range (configDiagnosticToLsp True sampleCodes ?d) =
      Inr \<lparr>range_start = \<lparr>pos_line = 4, character = 2\<rparr>,
           range_end = \<lparr>pos_line = 4, character = 9\<rparr>\<rparr>"
    using t [THEN conjunct2, THEN conjunct1, rule_format,
        of "\<lparr>line = 5, offset = 3\<rparr>" "\<lparr>line = 5, offset = 10\<rparr>"]
    by (simp add: sampleDiagnostic_def)
  have 2: "map_sum id lsp_range
      (configDiagnosticToLsp True sampleCodes (?d\<lparr>diag_end := None\<rparr>)) =
      Inr \<lparr>range_start = \<lparr>pos_line = 0, character = 0\<rparr>,
           range_end = \<lparr>pos_line = 0, character = 1\<rparr>\<rparr>"
    using configDiagnostic_range [of "?d\<lparr>diag_end := None\<rparr>" True sampleCodes, THEN conjunct1]
    by simp
  have 3: "configDiagnosticToLsp True sampleCodes
      (?d\<lparr>diag_end := Some \<lparr>line = 5, offset = 0\<rparr>\<rparr>) =
      Inl (Exception ''Range#create called with invalid arguments'')"
    using configDiagnostic_range
      [of "?d\<lparr>diag_end := Some \<lparr>line = 5, offset = 0\<rparr>\<rparr>" True sampleCodes,
        THEN conjunct2, THEN conjunct2, THEN conjunct1, rule_format,
        of "\<lparr>line = 5, offset = 3\<rparr>" "\<lparr>line = 5, offset = 0\<rparr>"]
    by (simp add: sampleDiagnostic_def)
  have "\<exists>n. tsDiagnosticToLspDiagnostic sampleConverters True sampleCodes ?d = Inr n"
    by (simp add: tsDiagnosticToLspDiagnostic_def sampleConverters_def sampleDiagnostic_def Let_def)
  then obtain n where n: "tsDiagnosticToLspDiagnostic sampleConverters True sampleCodes ?d = Inr n"
    by blast
  have "lsp_range n = \<lparr>range_start = \<lparr>pos_line = 4, character = 2\<rparr>,
                        range_end = \<lparr>pos_line = 4, character = 9\<rparr>\<rparr>"
    using t [THEN conjunct2, THEN conjunct2, THEN conjunct2, rule_format,
        of "\<lparr>line = 5, offset = 3\<rparr>" "\<lparr>line = 5, offset = 10\<rparr>" sampleConverters n] n
    by (simp add: sampleDiagnostic_def sampleConverters_def)
  then have 4: "map_sum id lsp_range
      (tsDiagnosticToLspDiagnostic sampleConverters True sampleCodes ?d) =
      Inr \<lparr>range_start = \<lparr>pos_line = 4, character = 2\<rparr>,
           range_end = \<lparr>pos_line = 4, character = 9\<rparr>\<rparr>"
    by (simp add: n)
  from 1 2 3 4 show ?thesis by (intro conjI)
qed

section \<open>Properties of the normalised diagnostic\<close>

lemma tsDiagnosticToLspDiagnostic_fields:
  assumes "tsDiagnosticToLspDiagnostic tc flag ec d = Inr n"
  shows "tags n =
           (let t = (if truthy (reportsUnnecessary d) then [Unnecessary] else []) @
                    (if truthy (reportsDeprecated d) then [Deprecated] else [])
            in if t = [] then None else Some t)"
    and "lsp_code n =
           (case code d of None \<Rightarrow> CodeNull
            | Some c \<Rightarrow> if c \<noteq> 0 then CodeNumber c else CodeNull)"
  using assms
  by (auto simp: tsDiagnosticToLspDiagnostic_def Let_def split: sum.splits option.splits)

text \<open>
  Normalisation returns a diagnostic whenever the converters return positions for both
  endpoints and for every related span.
\<close>

lemma tsDiagnosticToLspDiagnostic_returns:
  assumes "Position_fromLocation tc (diag_start d) = Inr s"
    and "Position_fromLocation tc (diag_end d) = Inr e"
    and "relatedInformation d = None \<or>
         (\<exists>ris rs. relatedInformation d = Some ris \<and> mapE (relatedToLsp tc) ris = Inr rs)"
  shows "\<exists>n. tsDiagnosticToLspDiagnostic tc flag ec d = Inr n"
  using assms by (auto simp: tsDiagnosticToLspDiagnostic_def Let_def)

text \<open>
  C8. The tags of the normalised diagnostic hold Unnecessary exactly when
  \<open>reportsUnnecessary\<close> is set and Deprecated exactly when \<open>reportsDeprecated\<close> is set; when
  neither is set the field is \<open>undefined\<close> (\<open>None\<close>), never the empty list.
\<close>

theorem tsDiagnostic_tags:
  assumes "tsDiagnosticToLspDiagnostic tc flag ec d = Inr n"
  shows "tags n \<noteq> Some [] \<and>
         (tags n = None \<longleftrightarrow> \<not> truthy (reportsUnnecessary d) \<and> \<not> truthy (reportsDeprecated d)) \<and>
         (\<forall>ts. tags n = Some ts \<longrightarrow>
            distinct ts \<and>
            (Unnecessary \<in> set ts \<longleftrightarrow> truthy (reportsUnnecessary d)) \<and>
            (Deprecated \<in> set ts \<longleftrightarrow> truthy (reportsDeprecated d))) \<and>
         (truthy (reportsUnnecessary d) \<and> \<not> truthy (reportsDeprecated d) \<longrightarrow>
            tags n = Some [Unnecessary])"
  using tsDiagnosticToLspDiagnostic_fields(1) [OF assms]
  by (auto simp: Let_def split: if_splits)

theorem tsDiagnostic_tags_witness:
  "map_sum id tags (tsDiagnosticToLspDiagnostic sampleConverters True sampleCodes
      (sampleDiagnostic ''error'' (Some 6133))) = Inr (Some [Unnecessary]) \<and>
   map_sum id tags (tsDiagnosticToLspDiagnostic sampleConverters True sampleCodes
      ((sampleDiagnostic ''error'' (Some 6133))\<lparr>reportsUnnecessary := None\<rparr>)) = Inr None"
proof -
  let ?d = "sampleDiagnostic ''error'' (Some 6133)"
  let ?d' = "?d\<lparr>reportsUnnecessary := None\<rparr>"
  have "\<exists>n. tsDiagnosticToLspDiagnostic sampleConverters True sampleCodes ?d = Inr n"
    by (simp add: tsDiagnosticToLspDiagnostic_def sampleConverters_def sampleDiagnostic_def Let_def)
  then obtain n where n: "tsDiagnosticToLspDiagnostic sampleConverters True sampleCodes ?d = Inr n"
    by blast
  have "\<exists>n. tsDiagnosticToLspDiagnostic sampleConverters True sampleCodes ?d' = Inr n"
    by (simp add: tsDiagnosticToLspDiagnostic_def sampleConverters_def sampleDiagnostic_def Let_def)
  then obtain n' where n': "tsDiagnosticToLspDiagnostic sampleConverters True sampleCodes ?d' = Inr n'"
    by blast
  have "tags n = Some [Unnecessary]"
    using tsDiagnostic_tags [OF n] by (simp add: sampleDiagnostic_def truthy_def)
  moreover have "tags n' = None"
    using tsDiagnostic_tags [OF n'] by (simp add: sampleDiagnostic_def truthy_def)
  ultimately show ?thesis
    by (simp add: n n')
qed

text \<open>
  C9, as stated, fails: a code that is present and zero is not passed through, the
  normalised diagnostic carries \<open>null\<close>.
\<close>

theorem tsDiagnostic_code_counterexample:
  "code (sampleDiagnostic ''error'' (Some 0)) = Some 0 \<and>
   map_sum id lsp_code (tsDiagnosticToLspDiagnostic sampleConverters True sampleCodes
      (sampleDiagnostic ''error'' (Some 0))) = Inr CodeNull"
  by (simp add: tsDiagnosticToLspDiagnostic_def sampleConverters_def sampleDiagnostic_def Let_def)

text \<open>
  C9, amended. A code that is present and not zero is passed through unchanged; when the
  code is absent or zero the \<open>code\<close> field holds \<open>null\<close>. The field is never left out.
\<close>

theorem tsDiagnostic_code:
  assumes "tsDiagnosticToLspDiagnostic tc flag ec d = Inr n"
  shows "(\<forall>c. code d = Some c \<and> c \<noteq> 0 \<longrightarrow> lsp_code n = CodeNumber c) \<and>
         (code d = None \<or> code d = Some 0 \<longrightarrow> lsp_code n = CodeNull) \<and>
         lsp_code n \<noteq> CodeUndefined"
  using tsDiagnosticToLspDiagnostic_fields(2) [OF assms]
  by (auto split: option.splits)

theorem tsDiagnostic_code_witness:
  "map_sum id lsp_code (tsDiagnosticToLspDiagnostic sampleConverters True sampleCodes
      (sampleDiagnostic ''error'' (Some 6133))) = Inr (CodeNumber 6133) \<and>
   map_sum id lsp_code (tsDiagnosticToLspDiagnostic sampleConverters True sampleCodes
      (sampleDiagnostic ''error'' None)) = Inr CodeNull"
proof -
  let ?d = "sampleDiagnostic ''error'' (Some 6133)"
  let ?d' = "sampleDiagnostic ''error'' None"
  have "\<exists>n. tsDiagnosticToLspDiagnostic sampleConverters True sampleCodes ?d = Inr n"
    by (simp add: tsDiagnosticToLspDiagnostic_def sampleConverters_def sampleDiagnostic_def Let_def)
  then obtain n where n: "tsDiagnosticToLspDiagnostic sampleConverters True sampleCodes ?d = Inr n"
    by blast
  have "\<exists>n. tsDiagnosticToLspDiagnostic sampleConverters True sampleCodes ?d' = Inr n"
    by (simp add: tsDiagnosticToLspDiagnostic_def sampleConverters_def sampleDiagnostic_def Let_def)
  then obtain n' where n': "tsDiagnosticToLspDiagnostic sampleConverters True sampleCodes ?d' = Inr n'"
    by blast
  have "lsp_code n = CodeNumber 6133"
    using tsDiagnostic_code [OF n] by (simp add: sampleDiagnostic_def)
  moreover have "lsp_code n' = CodeNull"
    using tsDiagnostic_code [OF n'] by (simp add: sampleDiagnostic_def)
  ultimately show ?thesis
    by (simp add: n n')
qed

section \<open>Properties of routing\<close>

lemma findE_all_false: "(\<forall>x\<in>set xs. p x = Inr False) \<Longrightarrow> findE p xs = Inr None"
  by (induction xs) auto

lemma findLanguage_None_drops:
  "findLanguage env this r = None \<Longrightarrow> diagnosticsReceived env this kind r ds = Inr []"
  by (simp add: diagnosticsReceived_def)

text \<open>
  C5. A batch for a file that no provider claims, and a batch whose lookup throws (in
  \<open>getDocument\<close>, in \<open>Uri.parse\<close> or in a provider's predicate), is delivered to no provider
  and \<open>diagnosticsReceived\<close> returns without an exception.
\<close>

theorem diagnosticsReceived_unclaimed:
  "((\<exists>e. getDocument env r = Inl e) \<longrightarrow> diagnosticsReceived env this kind r ds = Inr []) \<and>
   ((\<exists>d. getDocument env r = Inr (Some d) \<and>
         (\<forall>l\<in>set (map snd (languagePerId this)). handles l r d = Inr False)) \<longrightarrow>
      diagnosticsReceived env this kind r ds = Inr []) \<and>
   ((\<exists>parsed. getDocument env r = Inr None \<and> Uri_parse env r = Inr parsed \<and>
         (\<forall>l\<in>set (map snd (languagePerId this)). handlesUri l parsed = Inr False)) \<longrightarrow>
      diagnosticsReceived env this kind r ds = Inr []) \<and>
   ((\<exists>e. lookupLanguage env this r = Inl e) \<longrightarrow>
      findLanguage env this r = None \<and> diagnosticsReceived env this kind r ds = Inr []) \<and>
   (lookupLanguage env this r = Inr None \<longrightarrow>
      findLanguage env this r = None \<and> diagnosticsReceived env this kind r ds = Inr [])"
proof (intro conjI impI)
  assume "\<exists>e. getDocument env r = Inl e"
  then have "findLanguage env this r = None"
    by (auto simp: findLanguage_def lookupLanguage_def)
  then show "diagnosticsReceived env this kind r ds = Inr []"
    by (rule findLanguage_None_drops)
next
  assume "\<exists>d. getDocument env r = Inr (Some d) \<and>
         (\<forall>l\<in>set (map snd (languagePerId this)). handles l r d = Inr False)"
  then obtain d where d: "getDocument env r = Inr (Some d)"
    and no: "\<forall>l\<in>set (map snd (languagePerId this)). handles l r d = Inr False"
    by blast
  have "findE (\<lambda>language. handles language r d) (map snd (languagePerId this)) = Inr None"
    using no by (intro findE_all_false) simp
  then have "findLanguage env this r = None"
    using d by (simp add: findLanguage_def lookupLanguage_def)
  then show "diagnosticsReceived env this kind r ds = Inr []"
    by (rule findLanguage_None_drops)
next
  assume "\<exists>parsed. getDocument env r = Inr None \<and> Uri_parse env r = Inr parsed \<and>
         (\<forall>l\<in>set (map snd (languagePerId this)). handlesUri l parsed = Inr False)"
  then obtain parsed where d: "getDocument env r = Inr None"
    and p: "Uri_parse env r = Inr parsed"
    and no: "\<forall>l\<in>set (map snd (languagePerId this)). handlesUri l parsed = Inr False"
    by blast
  have "findE (\<lambda>language. case Uri_parse env r of Inl e \<Rightarrow> Inl e
                          | Inr parsed \<Rightarrow> handlesUri language parsed)
          (map snd (languagePerId this)) = Inr None"
    using no p by (intro findE_all_false) simp
  then have "findLanguage env this r = None"
    using d by (simp add: findLanguage_def lookupLanguage_def)
  then show "diagnosticsReceived env this kind r ds = Inr []"
    by (rule findLanguage_None_drops)
next
  assume a: "\<exists>e. lookupLanguage env this r = Inl e"
  then show "findLanguage env this r = None"
    by (auto simp: findLanguage_def)
  then show "diagnosticsReceived env this kind r ds = Inr []"
    by (rule findLanguage_None_drops)
next
  assume a: "lookupLanguage env this r = Inr None"
  then show "findLanguage env this r = None"
    by (simp add: findLanguage_def)
  then show "diagnosticsReceived env this kind r ds = Inr []"
    by (rule findLanguage_None_drops)
qed

theorem diagnosticsReceived_unclaimed_witness:
  "diagnosticsReceived sampleCollaborators sampleWorld () (js ''bad'') [] = Inr [] \<and>
   diagnosticsReceived sampleCollaborators sampleWorld () (js ''/proj/open.md'') [] = Inr [] \<and>
   diagnosticsReceived sampleCollaborators sampleWorld () (js ''/proj/a.md'') [] = Inr [] \<and>
   diagnosticsReceived sampleCollaborators sampleWorld () (js []) [] = Inr []"
proof -
  have 1: "\<exists>e. getDocument sampleCollaborators (js ''bad'') = Inl e"
    by (simp add: sampleCollaborators_def)
  have 2: "\<exists>d. getDocument sampleCollaborators (js ''/proj/open.md'') = Inr (Some d) \<and>
         (\<forall>l\<in>set (map snd (languagePerId sampleWorld)).
            handles l (js ''/proj/open.md'') d = Inr False)"
    by (simp add: sampleCollaborators_def sampleWorld_def sampleProvider_def suffix_def)
  have 3: "\<exists>parsed. getDocument sampleCollaborators (js ''/proj/a.md'') = Inr None \<and>
         Uri_parse sampleCollaborators (js ''/proj/a.md'') = Inr parsed \<and>
         (\<forall>l\<in>set (map snd (languagePerId sampleWorld)). handlesUri l parsed = Inr False)"
    by (simp add: sampleCollaborators_def sampleWorld_def sampleProvider_def suffix_def)
  have 4: "\<exists>e. lookupLanguage sampleCollaborators sampleWorld (js []) = Inl e"
    by (simp add: lookupLanguage_def sampleCollaborators_def sampleWorld_def)
  note t1 = diagnosticsReceived_unclaimed
    [of sampleCollaborators "js ''bad''" sampleWorld "()" "[]"]
  note t2 = diagnosticsReceived_unclaimed
    [of sampleCollaborators "js ''/proj/open.md''" sampleWorld "()" "[]"]
  note t3 = diagnosticsReceived_unclaimed
    [of sampleCollaborators "js ''/proj/a.md''" sampleWorld "()" "[]"]
  note t4 = diagnosticsReceived_unclaimed
    [of sampleCollaborators "js []" sampleWorld "()" "[]"]
  have a: "diagnosticsReceived sampleCollaborators sampleWorld () (js ''bad'') [] = Inr []"
    using conjunct1 [OF t1] 1 by (rule mp)
  have b: "diagnosticsReceived sampleCollaborators sampleWorld () (js ''/proj/open.md'') [] = Inr []"
    using conjunct1 [OF conjunct2 [OF t2]] 2 by (rule mp)
  have c: "diagnosticsReceived sampleCollaborators sampleWorld () (js ''/proj/a.md'') [] = Inr []"
    using conjunct1 [OF conjunct2 [OF conjunct2 [OF t3]]] 3 by (rule mp)
  have "findLanguage sampleCollaborators sampleWorld (js []) = None \<and>
        diagnosticsReceived sampleCollaborators sampleWorld () (js []) [] = Inr []"
    using conjunct1 [OF conjunct2 [OF conjunct2 [OF conjunct2 [OF t4]]]] 4 by (rule mp)
  then have d: "diagnosticsReceived sampleCollaborators sampleWorld () (js []) [] = Inr []"
    by (rule conjunct2)
  show ?thesis
    using a b c d by (intro conjI)
qed

section \<open>Properties of the file events\<close>

lemma reloadProjects_effects:
  "log (reloadProjects w) =
     log w @ [(now w, ReInitialize), (now w, ExecuteReloadProjects)] @
       map (\<lambda>(i, language). (now w, TriggerAllDiagnostics i)) (languagePerId w)"
  "pending (reloadProjects w) = pending w"
  "timer (reloadProjects w) = timer w"
  "now (reloadProjects w) = now w"
  by (simp_all add: reloadProjects_def triggerAllDiagnostics_def)

text \<open>
  C4. The creation of either watched file and the deletion of a config file run
  \<open>reloadProjects\<close> at once: the diagnostics are reinitialised, the backend is told to reload
  its projects and every provider is triggered, all at the time of the event, and no timer
  is touched. The deletion of \<open>package.json\<close> has no listener: the host does nothing.
\<close>

theorem package_delete_has_no_listener:
  "fireFileEvent packageFileWatcher onDidDelete w = w \<and>
   fireFileEvent configFileWatcher onDidDelete w = reloadProjects w \<and>
   fireFileEvent configFileWatcher onDidCreate w = reloadProjects w \<and>
   fireFileEvent packageFileWatcher onDidCreate w = reloadProjects w \<and>
   log (reloadProjects w) =
     log w @ [(now w, ReInitialize), (now w, ExecuteReloadProjects)] @
       map (\<lambda>(i, language). (now w, TriggerAllDiagnostics i)) (languagePerId w) \<and>
   pending (reloadProjects w) = pending w \<and> timer (reloadProjects w) = timer w \<and>
   now (reloadProjects w) = now w"
  by (simp add: reloadProjects_effects)

section \<open>Properties of the debounce\<close>

lemma advanceTo_not_due:
  assumes "pending w = [(h, d)]" "t < d"
  shows "advanceTo t w = w\<lparr>now := max (now w) t\<rparr>"
  using assms by (simp add: advanceTo_def)

lemma advanceTo_idle:
  assumes "pending w = []"
  shows "advanceTo t w = w\<lparr>now := max (now w) t\<rparr>"
  using assms by (simp add: advanceTo_def)

lemma handleProjectChange_arms:
  assumes "pending w = [] \<or> (\<exists>h d. pending w = [(h, d)] \<and> timer w = Some h)"
  shows "armed (handleProjectChange w) (now w) \<and> log (handleProjectChange w) = log w \<and>
         languagePerId (handleProjectChange w) = languagePerId w"
  using assms
  by (auto simp: armed_def handleProjectChange_def setTimeout_def clearTimeout_def Let_def
           split: option.splits)

lemma deliver_change:
  assumes "pending w = [] \<or> (\<exists>h d. pending w = [(h, d)] \<and> timer w = Some h \<and> t < d)"
    and "now w \<le> t"
  shows "armed (deliver (t, wt, onDidChange) w) t \<and>
         log (deliver (t, wt, onDidChange) w) = log w \<and>
         languagePerId (deliver (t, wt, onDidChange) w) = languagePerId w"
proof -
  have adv: "advanceTo t w = w\<lparr>now := t\<rparr>"
    using assms by (auto simp: advanceTo_idle advanceTo_not_due max_def)
  have fire: "fireFileEvent wt onDidChange v = handleProjectChange v" for v :: "('a, 'b) world"
    by (cases wt) simp_all
  have "pending (w\<lparr>now := t\<rparr>) = [] \<or>
        (\<exists>h d. pending (w\<lparr>now := t\<rparr>) = [(h, d)] \<and> timer (w\<lparr>now := t\<rparr>) = Some h)"
    using assms(1) by auto
  from handleProjectChange_arms [OF this] show ?thesis
    by (simp add: deliver_def adv fire)
qed

lemma run_burst:
  assumes "armed w t" "burst t evs"
  shows "armed (run evs w) (last (t # map fst evs)) \<and> log (run evs w) = log w \<and>
         languagePerId (run evs w) = languagePerId w"
  using assms
proof (induction evs arbitrary: w t)
  case Nil
  then show ?case by (simp add: run_def)
next
  case (Cons ev evs)
  obtain t' wt e where ev: "ev = (t', wt, e)" by (cases ev)
  with Cons.prems have e: "e = onDidChange" and le: "t \<le> t'" and lt: "t' < t + 1500"
    and b: "burst t' evs" by auto
  from Cons.prems(1) obtain h where h: "pending w = [(h, t + 1500)]" "timer w = Some h" "now w = t"
    by (auto simp: armed_def)
  have "armed (deliver (t', wt, onDidChange) w) t' \<and>
        log (deliver (t', wt, onDidChange) w) = log w \<and>
        languagePerId (deliver (t', wt, onDidChange) w) = languagePerId w"
    using h le lt by (intro deliver_change) auto
  with Cons.IH [OF _ b, of "deliver ev w"] show ?case
    by (simp add: run_def ev e)
qed

lemma advanceTo_armed:
  assumes "armed w t" "t \<le> T"
  shows "log (advanceTo T w) =
           log w @ (if t + 1500 \<le> T
                    then map (\<lambda>(i, language). (t + 1500, TriggerAllDiagnostics i)) (languagePerId w)
                    else [])"
  using assms
  by (auto simp: armed_def advanceTo_def triggerAllDiagnostics_def max_def)

text \<open>
  C3. Take a first content change at time \<open>t\<close>, on a host that is idle or whose one timer
  is due later, and a burst of further changes, each less than 1500 ms after the one
  before. Whatever the time \<open>T\<close> the event loop then reaches, the burst has triggered the
  providers exactly once, 1500 ms after its last event, when \<open>T\<close> is that late, and not at
  all before.
\<close>

theorem debounce_coalesces:
  assumes "pending w = [] \<or> (\<exists>h d. pending w = [(h, d)] \<and> timer w = Some h \<and> t < d)"
    and "now w \<le> t"
    and "burst t evs"
    and "tn = last (t # map fst evs)"
    and "tn \<le> T"
  shows "log (advanceTo T (run ((t, wt, onDidChange) # evs) w)) =
           log w @ (if tn + 1500 \<le> T
                    then map (\<lambda>(i, language). (tn + 1500, TriggerAllDiagnostics i)) (languagePerId w)
                    else [])"
proof -
  let ?w1 = "deliver (t, wt, onDidChange) w"
  have 1: "armed ?w1 t" "log ?w1 = log w" "languagePerId ?w1 = languagePerId w"
    using deliver_change [OF assms(1,2)] by auto
  have 2: "armed (run evs ?w1) tn" "log (run evs ?w1) = log w"
    "languagePerId (run evs ?w1) = languagePerId w"
    using run_burst [OF 1(1) assms(3)] 1 assms(4) by auto
  have "run ((t, wt, onDidChange) # evs) w = run evs ?w1"
    by (simp add: run_def)
  with advanceTo_armed [OF 2(1) assms(5)] 2 show ?thesis
    by simp
qed


theorem debounce_coalesces_witness:
  "log (advanceTo 3500
     (run [(0, configFileWatcher, onDidChange), (1000, configFileWatcher, onDidChange),
           (2000, packageFileWatcher, onDidChange)] sampleWorld)) =
     [(3500, TriggerAllDiagnostics (js ''typescript'')),
      (3500, TriggerAllDiagnostics (js ''javascript''))] \<and>
   log (advanceTo 3499
     (run [(0, configFileWatcher, onDidChange), (1000, configFileWatcher, onDidChange),
           (2000, packageFileWatcher, onDidChange)] sampleWorld)) = []"
  using debounce_coalesces [of sampleWorld 0
      "[(1000, configFileWatcher, onDidChange), (2000, packageFileWatcher, onDidChange)]"
      2000 3500 configFileWatcher]
    debounce_coalesces [of sampleWorld 0
      "[(1000, configFileWatcher, onDidChange), (2000, packageFileWatcher, onDidChange)]"
      2000 3499 configFileWatcher]
  by (simp add: sampleWorld_def)

section \<open>Properties of the backtick escaping\<close>

lemma stripPrefix_None_iff: "stripPrefix p s = None \<longleftrightarrow> \<not> prefix p s"
  by (induction p s rule: stripPrefix.induct) auto

lemma stripPrefix_append: "stripPrefix p (p @ s) = Some s"
  by (induction p) auto

lemma replaceChar_simps [simp]:
  "replaceChar c r [] = []"
  "replaceChar c r (x # xs) = (if x = c then r else [x]) @ replaceChar c r xs"
  "replaceChar c r (xs @ ys) = replaceChar c r xs @ replaceChar c r ys"
  by (simp_all add: replaceChar_def)

lemma escapeAngles_simps [simp]:
  "escapeAngles [] = []"
  "escapeAngles (x # xs) =
     (if x = LT then [BACKSLASH, LT] else if x = GT then [BACKSLASH, GT] else [x]) @ escapeAngles xs"
  "escapeAngles (xs @ ys) = escapeAngles xs @ escapeAngles ys"
  by (simp_all add: escapeAngles_def)

lemma replaceChar_twice:
  "replaceChar GT [BACKSLASH, GT] (replaceChar LT [BACKSLASH, LT] s) = escapeAngles s"
  by (induction s) auto

lemma escapeAngles_keeps:
  assumes "c \<noteq> BACKSLASH" "c \<noteq> LT" "c \<noteq> GT"
  shows "c \<in> set (escapeAngles s) \<longleftrightarrow> c \<in> set s"
  using assms by (induction s) auto

lemma escapeAngles_Nil_iff [simp]: "escapeAngles s = [] \<longleftrightarrow> s = []"
  by (cases s) auto

text \<open>Scanning for fenced blocks passes over a stretch in which no fence starts.\<close>

lemma extractCodeBlocks_skip:
  assumes "\<forall>k<length x. \<not> prefix FENCE (drop k (x @ y))"
  shows "extractCodeBlocks (x @ y) =
           (x @ fst (extractCodeBlocks y), snd (extractCodeBlocks y))"
  using assms
proof (induction x)
  case Nil
  then show ?case by simp
next
  case (Cons c x)
  from Cons.prems have 0: "\<not> prefix FENCE (c # x @ y)"
    by (auto dest: spec [of _ 0])
  have "\<forall>k<length x. \<not> prefix FENCE (drop k (x @ y))"
  proof (intro allI impI)
    fix k assume "k < length x"
    then show "\<not> prefix FENCE (drop k (x @ y))"
      using Cons.prems by (auto dest!: spec [of _ "Suc k"])
  qed
  from Cons.IH [OF this] 0 show ?case
    by (simp add: matchCodeBlock_def stripPrefix_None_iff [THEN iffD2] split: prod.splits)
qed

lemma no_backtick_no_fence:
  assumes "BACKTICK \<notin> set x"
  shows "\<forall>k<length x. \<not> prefix FENCE (drop k (x @ y))"
proof (intro allI impI)
  fix k assume k: "k < length x"
  then have "drop k (x @ y) = x ! k # drop (Suc k) x @ y"
    by (simp add: Cons_nth_drop_Suc)
  moreover have "x ! k \<noteq> BACKTICK"
    using assms k by (metis nth_mem)
  ultimately show "\<not> prefix FENCE (drop k (x @ y))"
    by simp
qed

lemma lazyUntil_hit: "stripPrefix lit s = Some r \<Longrightarrow> lazyUntil lit s = Some ([], r)"
  by (cases s) auto

text \<open>The lazy quantifier stops at the first closing fence.\<close>

lemma lazyUntil_first:
  assumes "\<forall>k<length body. \<not> prefix lit (drop k (body @ lit @ post))"
  shows "lazyUntil lit (body @ lit @ post) = Some (body, post)"
  using assms
proof (induction body)
  case Nil
  show ?case
    using lazyUntil_hit [OF stripPrefix_append] by simp
next
  case (Cons c body)
  from Cons.prems have 0: "\<not> prefix lit (c # body @ lit @ post)"
    by (auto dest: spec [of _ 0])
  have "\<forall>k<length body. \<not> prefix lit (drop k (body @ lit @ post))"
  proof (intro allI impI)
    fix k assume "k < length body"
    then show "\<not> prefix lit (drop k (body @ lit @ post))"
      using Cons.prems by (auto dest!: spec [of _ "Suc k"])
  qed
  from Cons.IH [OF this] 0 show ?case
    by (simp add: stripPrefix_None_iff [THEN iffD2])
qed

lemma matchBacktickSpan_other: "c \<noteq> BACKTICK \<Longrightarrow> matchBacktickSpan (c # s) = None"
  by (simp add: matchBacktickSpan_def)

lemma matchBacktickSpan_span:
  assumes "body \<noteq> []" "BACKTICK \<notin> set body"
  shows "matchBacktickSpan (BACKTICK # body @ BACKTICK # y) = Some (body, y)"
proof -
  have "takeWhile (\<lambda>x. x \<noteq> BACKTICK) (body @ BACKTICK # y) = body"
    using assms(2) by (induction body) auto
  moreover have "dropWhile (\<lambda>x. x \<noteq> BACKTICK) (body @ BACKTICK # y) = BACKTICK # y"
    using assms(2) by (induction body) auto
  ultimately show ?thesis
    using assms(1) by (simp add: matchBacktickSpan_def)
qed

lemma replaceBacktickSpans_skip:
  "BACKTICK \<notin> set x \<Longrightarrow> replaceBacktickSpans (x @ y) = x @ replaceBacktickSpans y"
  by (induction x) (simp_all add: matchBacktickSpan_other)

lemma replaceBacktickSpans_plain:
  "BACKTICK \<notin> set x \<Longrightarrow> replaceBacktickSpans x = x"
  using replaceBacktickSpans_skip [of x "[]"] by simp

lemma replaceBacktickSpans_span:
  assumes "body \<noteq> []" "BACKTICK \<notin> set body"
  shows "replaceBacktickSpans (BACKTICK # body @ BACKTICK # y) =
           highlight body @ replaceBacktickSpans y"
  using matchBacktickSpan_span [OF assms] by simp

lemma restoreCodeBlocks_skip:
  "NUL \<notin> set x \<Longrightarrow> restoreCodeBlocks (x @ y) bs = x @ restoreCodeBlocks y bs"
  by (induction x) auto

lemma restoreCodeBlocks_plain: "NUL \<notin> set x \<Longrightarrow> restoreCodeBlocks x bs = x"
  using restoreCodeBlocks_skip [of x "[]"] by simp

lemma highlight_NUL: "NUL \<in> set (highlight g) \<longleftrightarrow> NUL \<in> set g"
  by (auto simp: highlight_def)

lemma replaceBackticksExceptCodeBlocks_eq:
  "replaceBackticksExceptCodeBlocks txt =
     restoreCodeBlocks (replaceBacktickSpans (escapeAngles (fst (extractCodeBlocks txt))))
       (snd (extractCodeBlocks txt))"
  by (simp add: replaceBackticksExceptCodeBlocks_def replaceChar_twice split: prod.splits)

text \<open>Text without backticks: only the angle brackets change.\<close>

lemma escape_plain:
  assumes "BACKTICK \<notin> set txt" "NUL \<notin> set txt"
  shows "replaceBackticksExceptCodeBlocks txt = escapeAngles txt"
proof -
  have "extractCodeBlocks (txt @ []) = (txt @ fst (extractCodeBlocks []), snd (extractCodeBlocks []))"
    by (rule extractCodeBlocks_skip) (rule no_backtick_no_fence [OF assms(1)])
  then have ex: "extractCodeBlocks txt = (txt, [])" by simp
  have "BACKTICK \<notin> set (escapeAngles txt)" "NUL \<notin> set (escapeAngles txt)"
    using assms by (simp_all add: escapeAngles_keeps)
  then show ?thesis
    by (simp add: replaceBackticksExceptCodeBlocks_eq ex replaceBacktickSpans_plain
          restoreCodeBlocks_plain)
qed

text \<open>A fenced block after text without backticks.\<close>

lemma escape_fence:
  assumes pre: "BACKTICK \<notin> set pre" "NUL \<notin> set pre"
    and body: "\<forall>k<length body. \<not> prefix FENCE (drop k (body @ FENCE @ post))"
  shows "replaceBackticksExceptCodeBlocks (pre @ FENCE @ body @ FENCE @ post) =
           escapeAngles pre @ FENCE @ body @ FENCE @ replaceBackticksExceptCodeBlocks post"
proof -
  let ?rest = "FENCE @ body @ FENCE @ post"
  obtain ph bs where post: "extractCodeBlocks post = (ph, bs)"
    by (cases "extractCodeBlocks post")
  have "matchCodeBlock ?rest = Some (FENCE @ body @ FENCE, post)"
    using lazyUntil_first [OF body] by (simp add: matchCodeBlock_def)
  then have rest: "extractCodeBlocks ?rest = (NUL # ph, (FENCE @ body @ FENCE) # bs)"
    using post by simp
  have "extractCodeBlocks (pre @ ?rest) =
          (pre @ fst (extractCodeBlocks ?rest), snd (extractCodeBlocks ?rest))"
    by (rule extractCodeBlocks_skip) (rule no_backtick_no_fence [OF pre(1)])
  then have ex: "extractCodeBlocks (pre @ ?rest) = (pre @ NUL # ph, (FENCE @ body @ FENCE) # bs)"
    by (simp only: rest fst_conv snd_conv)
  have e: "BACKTICK \<notin> set (escapeAngles pre)" "NUL \<notin> set (escapeAngles pre)"
    using pre by (simp_all add: escapeAngles_keeps)
  have "replaceBacktickSpans (escapeAngles (pre @ NUL # ph)) =
          escapeAngles pre @ NUL # replaceBacktickSpans (escapeAngles ph)"
    using replaceBacktickSpans_skip [OF e(1), of "NUL # escapeAngles ph"]
    by (simp add: matchBacktickSpan_other)
  then have "replaceBackticksExceptCodeBlocks (pre @ ?rest) =
          escapeAngles pre @ (FENCE @ body @ FENCE) @
            restoreCodeBlocks (replaceBacktickSpans (escapeAngles ph)) bs"
    using restoreCodeBlocks_skip [OF e(2)]
    by (simp only: replaceBackticksExceptCodeBlocks_eq ex fst_conv snd_conv) simp
  moreover have "replaceBackticksExceptCodeBlocks post =
          restoreCodeBlocks (replaceBacktickSpans (escapeAngles ph)) bs"
    by (simp add: replaceBackticksExceptCodeBlocks_eq post)
  ultimately show ?thesis by simp
qed

text \<open>A single-backtick span after text without backticks.\<close>

lemma escape_span:
  assumes pre: "BACKTICK \<notin> set pre" "NUL \<notin> set pre"
    and body: "body \<noteq> []" "BACKTICK \<notin> set body" "NUL \<notin> set body"
    and post: "\<not> prefix [BACKTICK, BACKTICK] post"
  shows "replaceBackticksExceptCodeBlocks (pre @ [BACKTICK] @ body @ [BACKTICK] @ post) =
           escapeAngles pre @ highlight (escapeAngles body) @
             replaceBackticksExceptCodeBlocks post"
proof -
  let ?x = "pre @ [BACKTICK] @ body @ [BACKTICK]"
  obtain ph bs where p: "extractCodeBlocks post = (ph, bs)"
    by (cases "extractCodeBlocks post")
  have nofence: "\<forall>k<length ?x. \<not> prefix FENCE (drop k (?x @ post))"
  proof (intro allI impI)
    fix k assume k: "k < length ?x"
    consider "k < length pre" | "k = length pre" |
      "length pre < k" "k < length pre + 1 + length body" | "k = length pre + 1 + length body"
      using k by fastforce
    then show "\<not> prefix FENCE (drop k (?x @ post))"
    proof cases
      case 1
      then have "drop k (?x @ post) = pre ! k # drop (Suc k) pre @ [BACKTICK] @ body @ [BACKTICK] @ post"
        by (simp add: Cons_nth_drop_Suc)
      moreover have "pre ! k \<noteq> BACKTICK" using pre(1) 1 by (metis nth_mem)
      ultimately show ?thesis by simp
    next
      case 2
      then have "drop k (?x @ post) = BACKTICK # body @ [BACKTICK] @ post" by simp
      moreover obtain b bs' where "body = b # bs'" "b \<noteq> BACKTICK"
        using body(1,2) by (cases body) auto
      ultimately show ?thesis by simp
    next
      case 3
      define j where "j = k - Suc (length pre)"
      have kj: "k = Suc (length pre + j)" and j: "j < length body"
        using 3 by (simp_all add: j_def)
      have "drop k (?x @ post) = drop j body @ [BACKTICK] @ post"
        using j by (simp add: kj)
      also have "\<dots> = body ! j # drop (Suc j) body @ [BACKTICK] @ post"
        using j by (simp add: Cons_nth_drop_Suc)
      finally have "drop k (?x @ post) = body ! j # drop (Suc j) body @ [BACKTICK] @ post" .
      moreover have "body ! j \<noteq> BACKTICK" using body(2) j by (metis nth_mem)
      ultimately show ?thesis by simp
    next
      case 4
      then have "drop k (?x @ post) = BACKTICK # post" by simp
      then show ?thesis using post by simp
    qed
  qed
  have ex: "extractCodeBlocks (?x @ post) = (?x @ ph, bs)"
    using extractCodeBlocks_skip [OF nofence] p by simp
  have e: "BACKTICK \<notin> set (escapeAngles pre)" "NUL \<notin> set (escapeAngles pre)"
    "BACKTICK \<notin> set (escapeAngles body)" "NUL \<notin> set (escapeAngles body)"
    "escapeAngles body \<noteq> []"
    using pre body by (simp_all add: escapeAngles_keeps)
  have "replaceBacktickSpans (escapeAngles (?x @ ph)) =
          escapeAngles pre @ highlight (escapeAngles body) @ replaceBacktickSpans (escapeAngles ph)"
    using replaceBacktickSpans_skip [OF e(1)] replaceBacktickSpans_span [OF e(5) e(3)]
    by simp
  moreover have "NUL \<notin> set (escapeAngles pre @ highlight (escapeAngles body))"
    using e by (simp add: highlight_NUL)
  ultimately have "replaceBackticksExceptCodeBlocks (?x @ post) =
          escapeAngles pre @ highlight (escapeAngles body) @
            restoreCodeBlocks (replaceBacktickSpans (escapeAngles ph)) bs"
    using restoreCodeBlocks_skip [of "escapeAngles pre @ highlight (escapeAngles body)"]
    by (simp add: replaceBackticksExceptCodeBlocks_eq ex [simplified])
  moreover have "replaceBackticksExceptCodeBlocks post =
          restoreCodeBlocks (replaceBacktickSpans (escapeAngles ph)) bs"
    by (simp add: replaceBackticksExceptCodeBlocks_eq p)
  ultimately show ?thesis by simp
qed

lemma stripPrefix_Some_iff: "stripPrefix p s = Some r \<longleftrightarrow> s = p @ r"
  by (induction p s rule: stripPrefix.induct) auto

lemma lazyUntil_split: "lazyUntil lit s = Some (b, r) \<Longrightarrow> s = b @ lit @ r"
  by (induction lit s arbitrary: b r rule: lazyUntil.induct)
     (auto split: option.splits simp: stripPrefix_Some_iff)

lemma matchCodeBlock_split:
  "matchCodeBlock s = Some (b, r) \<Longrightarrow> s = b @ r \<and> (\<exists>body. b = FENCE @ body @ FENCE)"
  by (auto simp: matchCodeBlock_def stripPrefix_Some_iff split: option.splits
           dest!: lazyUntil_split)

lemma matchBacktickSpan_split:
  assumes "matchBacktickSpan s = Some (g, r)"
  shows "s = BACKTICK # g @ BACKTICK # r \<and> BACKTICK \<notin> set g"
proof -
  from assms obtain cs where s: "s = BACKTICK # cs"
    by (cases s) (auto simp: matchBacktickSpan_def split: if_splits)
  let ?P = "\<lambda>x. x \<noteq> BACKTICK"
  from assms s have g: "g = takeWhile ?P cs" and d: "dropWhile ?P cs \<noteq> []"
    and r: "r = tl (dropWhile ?P cs)"
    by (auto simp: matchBacktickSpan_def Let_def split: if_splits)
  from d have "hd (dropWhile ?P cs) = BACKTICK"
    using hd_dropWhile [of ?P cs] by auto
  with d r have "dropWhile ?P cs = BACKTICK # r"
    by (cases "dropWhile ?P cs") auto
  then have "cs = g @ BACKTICK # r"
    using takeWhile_dropWhile_id [of ?P cs] g by simp
  moreover have "BACKTICK \<notin> set g"
    using g by (auto dest: set_takeWhileD)
  ultimately show ?thesis using s by simp
qed

text \<open>
  Without a NUL in the input, the placeholders are exactly the blocks taken out: putting
  the blocks back into the text with placeholders gives the input.
\<close>

lemma extractCodeBlocks_restore:
  "NUL \<notin> set txt \<Longrightarrow>
     restoreCodeBlocks (fst (extractCodeBlocks txt)) (snd (extractCodeBlocks txt)) = txt \<and>
     length (filter (\<lambda>c. c = NUL) (fst (extractCodeBlocks txt))) =
       length (snd (extractCodeBlocks txt))"
proof (induction "txt" rule: extractCodeBlocks.induct)
  case 1
  then show ?case by simp
next
  case (2 c cs)
  show ?case
  proof (cases "matchCodeBlock (c # cs)")
    case None
    with 2 show ?thesis by (auto split: prod.splits)
  next
    case (Some m)
    obtain block rest where m: "m = (block, rest)" by (cases m)
    from matchCodeBlock_split [OF Some [unfolded m]]
    have split: "c # cs = block @ rest" by blast
    then have "NUL \<notin> set rest" using "2.prems" by (metis Un_iff set_append)
    note ih = "2.IH"(2) [OF Some [unfolded m] refl this]
    have ex: "extractCodeBlocks (c # cs) =
        (NUL # fst (extractCodeBlocks rest), block # snd (extractCodeBlocks rest))"
      using Some m by (simp split: prod.splits)
    have "restoreCodeBlocks (fst (extractCodeBlocks (c # cs)))
            (snd (extractCodeBlocks (c # cs))) = block @ rest"
      unfolding ex using ih by simp
    moreover have "length (filter (\<lambda>c. c = NUL) (fst (extractCodeBlocks (c # cs)))) =
        length (snd (extractCodeBlocks (c # cs)))"
      unfolding ex using ih by simp
    ultimately show ?thesis
      using split by simp
  qed
qed

lemma extractCodeBlocks_fences:
  "b \<in> set (snd (extractCodeBlocks txt)) \<Longrightarrow> \<exists>body. b = FENCE @ body @ FENCE"
proof (induction "txt" rule: extractCodeBlocks.induct)
  case 1
  then show ?case by simp
next
  case (2 c cs)
  show ?case
  proof (cases "matchCodeBlock (c # cs)")
    case None
    with 2 show ?thesis by (auto split: prod.splits)
  next
    case (Some m)
    obtain block rest where m: "m = (block, rest)" by (cases m)
    from matchCodeBlock_split [OF Some [unfolded m]]
    have "\<exists>body. block = FENCE @ body @ FENCE" by blast
    with "2.IH"(2) [OF Some [unfolded m] refl] "2.prems" Some m show ?thesis
      by (auto split: prod.splits)
  qed
qed

lemma escapeAngles_NULs:
  "filter (\<lambda>c. c = NUL) (escapeAngles s) = filter (\<lambda>c. c = NUL) s"
  by (induction s) auto

lemma replaceBacktickSpans_NULs:
  "filter (\<lambda>c. c = NUL) (replaceBacktickSpans s) = filter (\<lambda>c. c = NUL) s"
proof (induction s rule: replaceBacktickSpans.induct)
  case 1
  then show ?case by simp
next
  case (2 c cs)
  show ?case
  proof (cases "matchBacktickSpan (c # cs)")
    case None
    with 2 show ?thesis by simp
  next
    case (Some m)
    obtain g rest where m: "m = (g, rest)" by (cases m)
    from matchBacktickSpan_split [OF Some [unfolded m]]
    have "c # cs = BACKTICK # g @ BACKTICK # rest" by blast
    with "2.IH"(2) [OF Some [unfolded m] refl] Some m show ?thesis
      by (simp add: highlight_def)
  qed
qed

lemma escape_skeleton:
  assumes "NUL \<notin> set txt" "extractCodeBlocks txt = (ph, blocks)"
  shows "txt = restoreCodeBlocks ph blocks"
    and "\<forall>b\<in>set blocks. \<exists>body. b = FENCE @ body @ FENCE"
    and "replaceBackticksExceptCodeBlocks txt =
           restoreCodeBlocks (replaceBacktickSpans (escapeAngles ph)) blocks"
    and "length (filter (\<lambda>c. c = NUL) (replaceBacktickSpans (escapeAngles ph))) = length blocks"
proof -
  show "txt = restoreCodeBlocks ph blocks"
    using extractCodeBlocks_restore [OF assms(1)] assms(2) by simp
  show "\<forall>b\<in>set blocks. \<exists>body. b = FENCE @ body @ FENCE"
    using extractCodeBlocks_fences [of _ "txt"] assms(2) by simp
  show "replaceBackticksExceptCodeBlocks txt =
           restoreCodeBlocks (replaceBacktickSpans (escapeAngles ph)) blocks"
    by (simp add: replaceBackticksExceptCodeBlocks_eq assms(2))
  show "length (filter (\<lambda>c. c = NUL) (replaceBacktickSpans (escapeAngles ph))) = length blocks"
    using extractCodeBlocks_restore [OF assms(1)] assms(2)
    by (simp add: replaceBacktickSpans_NULs escapeAngles_NULs)
qed

text \<open>
  C6, as stated, fails on an input that holds the placeholder itself: the text of the
  span \<open>`\<close>NUL\<open>`\<close> is not kept, the marker is wrapped around nothing.
\<close>

theorem backtick_escaping_counterexample:
  "replaceBackticksExceptCodeBlocks [BACKTICK, NUL, BACKTICK] = [ESC] @ js ''[1;34m'' @ [ESC] @ js ''[0m'' \<and>
   replaceBackticksExceptCodeBlocks [BACKTICK, NUL, BACKTICK] \<noteq>
     [ESC] @ js ''[1;34m'' @ [NUL] @ [ESC] @ js ''[0m''"
  by (simp add: replaceBackticksExceptCodeBlocks_def matchCodeBlock_def matchBacktickSpan_def
        highlight_def)

text \<open>
  C6, amended to inputs without the code unit NUL. Text without backticks has a backslash
  put before each angle bracket and is otherwise unchanged (first conjunct). A fenced
  block, from an opening fence to the first fence after it, stays as it is, single
  backticks inside it included (second conjunct). A span between two single backticks is
  replaced by its text, angle brackets escaped, between the two halves of the marker
  \<open>ESC[1;34m\<close> and \<open>ESC[0m\<close>, which does not depend on the severity (third conjunct). In
  both, the text before has no backtick and the text after is treated in the same way.
  For every such input (last conjunct) the input is the text with placeholders with the
  blocks put back, every block is fenced, and the result is the escaped and recoloured
  text with placeholders with the same blocks put back, one for each placeholder.
\<close>

theorem backtick_escaping:
  assumes "NUL \<notin> set txt"
  shows
   "(BACKTICK \<notin> set txt \<longrightarrow> replaceBackticksExceptCodeBlocks txt = escapeAngles txt) \<and>
    (\<forall>pre body post.
       txt = pre @ FENCE @ body @ FENCE @ post \<and> BACKTICK \<notin> set pre \<and>
       (\<forall>k<length body. \<not> prefix FENCE (drop k (body @ FENCE @ post))) \<longrightarrow>
         replaceBackticksExceptCodeBlocks txt =
           escapeAngles pre @ FENCE @ body @ FENCE @ replaceBackticksExceptCodeBlocks post) \<and>
    (\<forall>pre body post.
       txt = pre @ [BACKTICK] @ body @ [BACKTICK] @ post \<and> BACKTICK \<notin> set pre \<and>
       body \<noteq> [] \<and> BACKTICK \<notin> set body \<and> \<not> prefix [BACKTICK, BACKTICK] post \<longrightarrow>
         replaceBackticksExceptCodeBlocks txt =
           escapeAngles pre @ ([ESC] @ js ''[1;34m'' @ escapeAngles body @ [ESC] @ js ''[0m'') @
             replaceBackticksExceptCodeBlocks post) \<and>
    (\<forall>ph blocks.
       extractCodeBlocks txt = (ph, blocks) \<longrightarrow>
         txt = restoreCodeBlocks ph blocks \<and>
         (\<forall>b\<in>set blocks. \<exists>body. b = FENCE @ body @ FENCE) \<and>
         replaceBackticksExceptCodeBlocks txt =
           restoreCodeBlocks (replaceBacktickSpans (escapeAngles ph)) blocks \<and>
         length (filter (\<lambda>c. c = NUL) (replaceBacktickSpans (escapeAngles ph))) =
           length blocks)"
proof (intro conjI allI impI)
  assume "BACKTICK \<notin> set txt"
  then show "replaceBackticksExceptCodeBlocks txt = escapeAngles txt"
    using assms by (rule escape_plain)
next
  fix pre body post
  assume a: "txt = pre @ FENCE @ body @ FENCE @ post \<and> BACKTICK \<notin> set pre \<and>
       (\<forall>k<length body. \<not> prefix FENCE (drop k (body @ FENCE @ post)))"
  then have "NUL \<notin> set pre" using assms by auto
  with a show "replaceBackticksExceptCodeBlocks txt =
           escapeAngles pre @ FENCE @ body @ FENCE @ replaceBackticksExceptCodeBlocks post"
    using escape_fence [of pre body post] by blast
next
  fix pre body post
  assume a: "txt = pre @ [BACKTICK] @ body @ [BACKTICK] @ post \<and> BACKTICK \<notin> set pre \<and>
       body \<noteq> [] \<and> BACKTICK \<notin> set body \<and> \<not> prefix [BACKTICK, BACKTICK] post"
  then have "NUL \<notin> set pre" "NUL \<notin> set body" using assms by auto
  with a show "replaceBackticksExceptCodeBlocks txt =
           escapeAngles pre @ ([ESC] @ js ''[1;34m'' @ escapeAngles body @ [ESC] @ js ''[0m'') @
             replaceBackticksExceptCodeBlocks post"
    using escape_span [of pre body post] unfolding highlight_def by blast
next
  fix ph blocks
  assume e: "extractCodeBlocks txt = (ph, blocks)"
  show "txt = restoreCodeBlocks ph blocks"
    using assms e by (rule escape_skeleton(1))
  show "\<forall>b\<in>set blocks. \<exists>body. b = FENCE @ body @ FENCE"
    using assms e by (rule escape_skeleton(2))
  show "replaceBackticksExceptCodeBlocks txt =
          restoreCodeBlocks (replaceBacktickSpans (escapeAngles ph)) blocks"
    using assms e by (rule escape_skeleton(3))
  show "length (filter (\<lambda>c. c = NUL) (replaceBacktickSpans (escapeAngles ph))) =
          length blocks"
    using assms e by (rule escape_skeleton(4))
qed

theorem backtick_escaping_witness:
  "replaceBackticksExceptCodeBlocks
     (js ''a'' @ [LT] @ js ''b '' @ FENCE @ js ''c'' @ [BACKTICK] @ js ''d'' @ [LT] @ FENCE @
      js '' e'' @ [GT]) =
   js ''a'' @ [BACKSLASH, LT] @ js ''b '' @ FENCE @ js ''c'' @ [BACKTICK] @ js ''d'' @ [LT] @ FENCE @
     js '' e'' @ [BACKSLASH, GT] \<and>
   replaceBackticksExceptCodeBlocks
     (js ''see '' @ [BACKTICK] @ js ''x'' @ [LT] @ js ''y'' @ [BACKTICK] @ js '' now'') =
   js ''see '' @ [ESC] @ js ''[1;34mx'' @ [BACKSLASH, LT] @ js ''y'' @ [ESC] @ js ''[0m now''"
proof -
  let ?pre = "js ''a'' @ [LT] @ js ''b ''"
  let ?body = "js ''c'' @ [BACKTICK] @ js ''d'' @ [LT]"
  let ?post = "js '' e'' @ [GT]"
  let ?t1 = "?pre @ FENCE @ ?body @ FENCE @ ?post"
  have n1: "NUL \<notin> set ?t1" by simp
  have b1: "\<forall>k<length ?body. \<not> prefix FENCE (drop k (?body @ FENCE @ ?post))"
    by (simp add: All_less_Suc)
  have "replaceBackticksExceptCodeBlocks ?t1 =
          escapeAngles ?pre @ FENCE @ ?body @ FENCE @ replaceBackticksExceptCodeBlocks ?post"
    using backtick_escaping [OF n1, THEN conjunct2, THEN conjunct1, rule_format,
        of ?pre ?body ?post] b1
    by simp
  moreover have "replaceBackticksExceptCodeBlocks ?post = escapeAngles ?post"
    using backtick_escaping [of ?post] by simp
  ultimately have 1: "replaceBackticksExceptCodeBlocks ?t1 =
      js ''a'' @ [BACKSLASH, LT] @ js ''b '' @ FENCE @ ?body @ FENCE @ js '' e'' @ [BACKSLASH, GT]"
    by simp
  let ?pre2 = "js ''see ''"
  let ?body2 = "js ''x'' @ [LT] @ js ''y''"
  let ?post2 = "js '' now''"
  let ?t2 = "?pre2 @ [BACKTICK] @ ?body2 @ [BACKTICK] @ ?post2"
  have n2: "NUL \<notin> set ?t2" by simp
  have "replaceBackticksExceptCodeBlocks ?t2 =
          escapeAngles ?pre2 @ ([ESC] @ js ''[1;34m'' @ escapeAngles ?body2 @ [ESC] @ js ''[0m'') @
            replaceBackticksExceptCodeBlocks ?post2"
    using backtick_escaping [OF n2, THEN conjunct2, THEN conjunct2, THEN conjunct1, rule_format,
        of ?pre2 ?body2 ?post2]
    by simp
  moreover have "replaceBackticksExceptCodeBlocks ?post2 = escapeAngles ?post2"
    using backtick_escaping [of ?post2] by simp
  ultimately have 2: "replaceBackticksExceptCodeBlocks ?t2 =
      js ''see '' @ [ESC] @ js ''[1;34mx'' @ [BACKSLASH, LT] @ js ''y'' @ [ESC] @ js ''[0m now''"
    by simp
  from 1 2 show ?thesis by simp
qed

section \<open>Properties of the line substitutions\<close>

lemma matchFileLink_other: "c \<noteq> LBRACKET \<Longrightarrow> matchFileLink (c # s) = None"
  by (simp add: matchFileLink_def)

lemma collapseFileLinks_skip:
  "LBRACKET \<notin> set x \<Longrightarrow> collapseFileLinks (x @ y) = x @ collapseFileLinks y"
  by (induction x) (simp_all add: matchFileLink_other)

lemma collapseFileLinks_no_match:
  "(\<forall>k<length ln. matchFileLink (drop k ln) = None) \<Longrightarrow> collapseFileLinks ln = ln"
proof (induction ln)
  case Nil
  then show ?case by simp
next
  case (Cons c ln)
  from Cons.prems have 0: "matchFileLink (c # ln) = None"
    by (auto dest: spec [of _ 0])
  have "\<forall>k<length ln. matchFileLink (drop k ln) = None"
  proof (intro allI impI)
    fix k assume "k < length ln"
    then show "matchFileLink (drop k ln) = None"
      using Cons.prems by (auto dest!: spec [of _ "Suc k"])
  qed
  from Cons.IH [OF this] 0 show ?case by simp
qed

text \<open>\<open>.+?\<close> stops at the first place, after at least one code unit, where the literal follows.\<close>

lemma lazyDotPlusUntil_first:
  assumes "mid \<noteq> []" "\<forall>c\<in>set mid. isDot c"
    and "\<forall>k. 0 < k \<and> k < length mid \<longrightarrow> \<not> prefix lit (drop k (mid @ lit @ post))"
  shows "lazyDotPlusUntil lit (mid @ lit @ post) = Some post"
  using assms
proof (induction mid)
  case Nil
  then show ?case by simp
next
  case (Cons c mid)
  show ?case
  proof (cases "mid = []")
    case True
    then show ?thesis
      using Cons.prems(2) by (simp add: stripPrefix_append)
  next
    case False
    have 1: "\<not> prefix lit (mid @ lit @ post)"
      using Cons.prems(3) False by (auto dest!: spec [of _ 1])
    have "\<forall>k. 0 < k \<and> k < length mid \<longrightarrow> \<not> prefix lit (drop k (mid @ lit @ post))"
    proof (intro allI impI)
      fix k assume "0 < k \<and> k < length mid"
      then show "\<not> prefix lit (drop k (mid @ lit @ post))"
        using Cons.prems(3) by (auto dest!: spec [of _ "Suc k"])
    qed
    from Cons.IH [OF False _ this] Cons.prems(2) 1 show ?thesis
      by (simp add: stripPrefix_None_iff [THEN iffD2])
  qed
qed

text \<open>The greedy target takes the whole run up to the quote or space that ends it.\<close>

lemma greedyTarget_run:
  assumes "QUOTE \<notin> set r" "SPACE \<notin> set r" "acc @ r \<noteq> []"
    and "linkTail s = Some post"
    and "s = [] \<or> hd s = QUOTE \<or> hd s = SPACE"
  shows "greedyTarget acc (r @ s) = Some (acc @ r, post)"
  using assms
proof (induction r arbitrary: acc)
  case Nil
  then show ?case by (cases s) auto
next
  case (Cons c r)
  have "greedyTarget (acc @ [c]) (r @ s) = Some ((acc @ [c]) @ r, post)"
    using Cons.prems by (intro Cons.IH) auto
  then show ?case
    using Cons.prems(1,2) by simp
qed

lemma collapseFileLinks_quoted:
  assumes "LBRACKET \<notin> set pre"
    and "target \<noteq> []" "QUOTE \<notin> set target" "SPACE \<notin> set target"
    and "mid \<noteq> []" "\<forall>c\<in>set mid. isDot c"
    and "\<forall>k. 0 < k \<and> k < length mid \<longrightarrow>
           \<not> prefix (PAGE_ICON @ [RBRACKET]) (drop k (mid @ (PAGE_ICON @ [RBRACKET]) @ post))"
  shows "collapseFileLinks
           (pre @ [LBRACKET, QUOTE] @ target @ [QUOTE] @ mid @ PAGE_ICON @ [RBRACKET] @ post) =
         pre @ [LBRACKET] @ target @ [SPACE] @ PAGE_ICON @ [RBRACKET] @ collapseFileLinks post"
proof -
  let ?lit = "PAGE_ICON @ [RBRACKET]"
  let ?s = "QUOTE # mid @ ?lit @ post"
  have "lazyDotPlusUntil ?lit (mid @ ?lit @ post) = Some post"
    using assms(5,6,7) by (rule lazyDotPlusUntil_first)
  then have "linkTail ?s = Some post"
    by (simp add: linkTail_def)
  then have "greedyTarget [] (target @ ?s) = Some ([] @ target, post)"
    using assms(2,3,4) by (intro greedyTarget_run) auto
  then have "matchFileLink (LBRACKET # QUOTE # target @ ?s) = Some (target, post)"
    by (simp add: matchFileLink_def)
  then have "collapseFileLinks (LBRACKET # QUOTE # target @ ?s) =
               [LBRACKET] @ target @ [SPACE] @ PAGE_ICON @ [RBRACKET] @ collapseFileLinks post"
    by simp
  then show ?thesis
    using collapseFileLinks_skip [OF assms(1), of "LBRACKET # QUOTE # target @ ?s"] by simp
qed

lemma isDot_RPAREN [simp]: "isDot RPAREN"
  by (simp add: isDot_def)

lemma greedyDotStarParen_none:
  "RPAREN \<notin> set (takeWhile isDot s) \<Longrightarrow> greedyDotStarParen s = None"
  by (induction s) (auto split: if_splits)

lemma greedyDotStarParen_last:
  assumes "\<forall>c\<in>set url. isDot c" "RPAREN \<notin> set (takeWhile isDot post)"
  shows "greedyDotStarParen (url @ RPAREN # post) = Some post"
  using assms
proof (induction url)
  case Nil
  then show ?case by (simp add: greedyDotStarParen_none)
next
  case (Cons c url)
  then show ?case by simp
qed

lemma matchIconLink_other: "c \<noteq> LBRACKET \<Longrightarrow> matchIconLink (c # s) = None"
  by (simp add: matchIconLink_def)

lemma stripIconLinks_skip:
  "LBRACKET \<notin> set x \<Longrightarrow> stripIconLinks (x @ y) = x @ stripIconLinks y"
  by (induction x) (simp_all add: matchIconLink_other)

lemma stripIconLinks_no_match:
  "(\<forall>k<length ln. matchIconLink (drop k ln) = None) \<Longrightarrow> stripIconLinks ln = ln"
proof (induction ln)
  case Nil
  then show ?case by simp
next
  case (Cons c ln)
  from Cons.prems have 0: "matchIconLink (c # ln) = None"
    by (auto dest: spec [of _ 0])
  have "\<forall>k<length ln. matchIconLink (drop k ln) = None"
  proof (intro allI impI)
    fix k assume "k < length ln"
    then show "matchIconLink (drop k ln) = None"
      using Cons.prems by (auto dest!: spec [of _ "Suc k"])
  qed
  from Cons.IH [OF this] 0 show ?case by simp
qed

lemma matchIconLink_hit:
  assumes "icon = LINK_ICON \<or> icon = WEB_ICON"
    and "\<forall>c\<in>set url. isDot c" "RPAREN \<notin> set (takeWhile isDot post)"
  shows "matchIconLink ([LBRACKET] @ icon @ [RBRACKET, LPAREN] @ url @ [RPAREN] @ post) = Some post"
  using assms(1) greedyDotStarParen_last [OF assms(2,3)]
  by (auto simp: matchIconLink_def LINK_ICON_def WEB_ICON_def)

lemma stripIconLinks_markup:
  assumes "LBRACKET \<notin> set pre"
    and "icon = LINK_ICON \<or> icon = WEB_ICON"
    and "\<forall>c\<in>set url. isDot c" "RPAREN \<notin> set (takeWhile isDot post)"
  shows "stripIconLinks (pre @ [LBRACKET] @ icon @ [RBRACKET, LPAREN] @ url @ [RPAREN] @ post) =
         pre @ stripIconLinks post"
proof -
  let ?m = "[LBRACKET] @ icon @ [RBRACKET, LPAREN] @ url @ [RPAREN] @ post"
  have "matchIconLink ?m = Some post"
    using assms(2,3,4) by (rule matchIconLink_hit)
  then have "stripIconLinks ?m = stripIconLinks post"
    by (cases ?m) simp_all
  then show ?thesis
    using stripIconLinks_skip [OF assms(1), of ?m] by simp
qed

lemma substituteLine_no_links:
  "showLink opt = False \<Longrightarrow>
     substituteLine opt ln = retagFence opt (stripIconLinks (collapseFileLinks ln))"
  by (simp add: substituteLine_def)

lemma collapseFileLinks_unquoted:
  assumes "LBRACKET \<notin> set pre"
    and "target \<noteq> []" "QUOTE \<notin> set target" "SPACE \<notin> set target"
    and "mid \<noteq> []" "hd mid = SPACE" "\<forall>c\<in>set mid. isDot c"
    and "\<forall>k. 0 < k \<and> k < length mid \<longrightarrow>
           \<not> prefix (PAGE_ICON @ [RBRACKET]) (drop k (mid @ (PAGE_ICON @ [RBRACKET]) @ post))"
  shows "collapseFileLinks (pre @ [LBRACKET] @ target @ mid @ PAGE_ICON @ [RBRACKET] @ post) =
         pre @ [LBRACKET] @ target @ [SPACE] @ PAGE_ICON @ [RBRACKET] @ collapseFileLinks post"
proof -
  let ?lit = "PAGE_ICON @ [RBRACKET]"
  let ?s = "mid @ ?lit @ post"
  obtain m where mid: "mid = SPACE # m"
    using assms(5,6) by (cases mid) auto
  obtain t ts where target: "target = t # ts" "t \<noteq> QUOTE"
    using assms(2,3) by (cases target) auto
  have "lazyDotPlusUntil ?lit ?s = Some post"
    using assms(5,7,8) by (rule lazyDotPlusUntil_first)
  then have "linkTail ?s = Some post"
    by (simp add: linkTail_def mid)
  then have "greedyTarget [] (target @ ?s) = Some ([] @ target, post)"
    using assms(2,3,4) by (intro greedyTarget_run) (auto simp: mid)
  then have "matchFileLink (LBRACKET # target @ ?s) = Some (target, post)"
    by (simp add: matchFileLink_def target)
  then have "collapseFileLinks (LBRACKET # target @ ?s) =
               [LBRACKET] @ target @ [SPACE] @ PAGE_ICON @ [RBRACKET] @ collapseFileLinks post"
    by simp
  then show ?thesis
    using collapseFileLinks_skip [OF assms(1), of "LBRACKET # target @ ?s"] by simp
qed

lemma no_bracket_no_file_link:
  assumes "LBRACKET \<notin> set ln"
  shows "\<forall>k<length ln. matchFileLink (drop k ln) = None"
proof (intro allI impI)
  fix k assume k: "k < length ln"
  then have "drop k ln = ln ! k # drop (Suc k) ln"
    by (simp add: Cons_nth_drop_Suc)
  moreover have "ln ! k \<noteq> LBRACKET"
    using assms k by (metis nth_mem)
  ultimately show "matchFileLink (drop k ln) = None"
    by (simp add: matchFileLink_other)
qed

lemma no_bracket_no_icon_link:
  assumes "LBRACKET \<notin> set ln"
  shows "\<forall>k<length ln. matchIconLink (drop k ln) = None"
proof (intro allI impI)
  fix k assume k: "k < length ln"
  then have "drop k ln = ln ! k # drop (Suc k) ln"
    by (simp add: Cons_nth_drop_Suc)
  moreover have "ln ! k \<noteq> LBRACKET"
    using assms k by (metis nth_mem)
  ultimately show "matchIconLink (drop k ln) = None"
    by (simp add: matchIconLink_other)
qed

text \<open>
  Where no bracket comes before it on the line, a bracketed file name with what follows
  it up to the page icon is replaced by the file name and the icon, and an icon link is
  removed up to its closing parenthesis; a line on which an expression has no match is
  left as it is by that substitution. \<open>formatDiagnostic\<close> runs with links off, where both
  substitutions are made.
\<close>

theorem link_substitutions:
  "formatDiagnostic md ds = format md ds \<lparr>showLink = False, codeBlockHighlightType = prettytserr\<rparr> \<and>
   (showLink opt = False \<longrightarrow>
      substituteLine opt ln = retagFence opt (stripIconLinks (collapseFileLinks ln))) \<and>
   (LBRACKET \<notin> set pre \<and> target \<noteq> [] \<and> QUOTE \<notin> set target \<and> SPACE \<notin> set target \<and>
    mid \<noteq> [] \<and> (\<forall>c\<in>set mid. isDot c) \<and>
    (\<forall>k. 0 < k \<and> k < length mid \<longrightarrow>
       \<not> prefix (PAGE_ICON @ [RBRACKET]) (drop k (mid @ (PAGE_ICON @ [RBRACKET]) @ post))) \<longrightarrow>
      collapseFileLinks
        (pre @ [LBRACKET, QUOTE] @ target @ [QUOTE] @ mid @ PAGE_ICON @ [RBRACKET] @ post) =
      pre @ [LBRACKET] @ target @ [SPACE] @ PAGE_ICON @ [RBRACKET] @ collapseFileLinks post) \<and>
   (LBRACKET \<notin> set pre \<and> target \<noteq> [] \<and> QUOTE \<notin> set target \<and> SPACE \<notin> set target \<and>
    mid \<noteq> [] \<and> hd mid = SPACE \<and> (\<forall>c\<in>set mid. isDot c) \<and>
    (\<forall>k. 0 < k \<and> k < length mid \<longrightarrow>
       \<not> prefix (PAGE_ICON @ [RBRACKET]) (drop k (mid @ (PAGE_ICON @ [RBRACKET]) @ post))) \<longrightarrow>
      collapseFileLinks (pre @ [LBRACKET] @ target @ mid @ PAGE_ICON @ [RBRACKET] @ post) =
      pre @ [LBRACKET] @ target @ [SPACE] @ PAGE_ICON @ [RBRACKET] @ collapseFileLinks post) \<and>
   (LBRACKET \<notin> set pre \<and> (icon = LINK_ICON \<or> icon = WEB_ICON) \<and> (\<forall>c\<in>set url. isDot c) \<and>
    RPAREN \<notin> set (takeWhile isDot post) \<longrightarrow>
      stripIconLinks (pre @ [LBRACKET] @ icon @ [RBRACKET, LPAREN] @ url @ [RPAREN] @ post) =
      pre @ stripIconLinks post) \<and>
   ((\<forall>k<length ln. matchFileLink (drop k ln) = None) \<longrightarrow> collapseFileLinks ln = ln) \<and>
   ((\<forall>k<length ln. matchIconLink (drop k ln) = None) \<longrightarrow> stripIconLinks ln = ln)"
proof (intro conjI impI)
  show "formatDiagnostic md ds =
          format md ds \<lparr>showLink = False, codeBlockHighlightType = prettytserr\<rparr>"
    by (simp add: formatDiagnostic_def)
next
  assume "showLink opt = False"
  then show "substituteLine opt ln = retagFence opt (stripIconLinks (collapseFileLinks ln))"
    by (rule substituteLine_no_links)
next
  assume "LBRACKET \<notin> set pre \<and> target \<noteq> [] \<and> QUOTE \<notin> set target \<and> SPACE \<notin> set target \<and>
    mid \<noteq> [] \<and> (\<forall>c\<in>set mid. isDot c) \<and>
    (\<forall>k. 0 < k \<and> k < length mid \<longrightarrow>
       \<not> prefix (PAGE_ICON @ [RBRACKET]) (drop k (mid @ (PAGE_ICON @ [RBRACKET]) @ post)))"
  then show "collapseFileLinks
        (pre @ [LBRACKET, QUOTE] @ target @ [QUOTE] @ mid @ PAGE_ICON @ [RBRACKET] @ post) =
      pre @ [LBRACKET] @ target @ [SPACE] @ PAGE_ICON @ [RBRACKET] @ collapseFileLinks post"
    by (intro collapseFileLinks_quoted) blast+
next
  assume "LBRACKET \<notin> set pre \<and> target \<noteq> [] \<and> QUOTE \<notin> set target \<and> SPACE \<notin> set target \<and>
    mid \<noteq> [] \<and> hd mid = SPACE \<and> (\<forall>c\<in>set mid. isDot c) \<and>
    (\<forall>k. 0 < k \<and> k < length mid \<longrightarrow>
       \<not> prefix (PAGE_ICON @ [RBRACKET]) (drop k (mid @ (PAGE_ICON @ [RBRACKET]) @ post)))"
  then show "collapseFileLinks (pre @ [LBRACKET] @ target @ mid @ PAGE_ICON @ [RBRACKET] @ post) =
      pre @ [LBRACKET] @ target @ [SPACE] @ PAGE_ICON @ [RBRACKET] @ collapseFileLinks post"
    by (intro collapseFileLinks_unquoted) blast+
next
  assume "LBRACKET \<notin> set pre \<and> (icon = LINK_ICON \<or> icon = WEB_ICON) \<and> (\<forall>c\<in>set url. isDot c) \<and>
    RPAREN \<notin> set (takeWhile isDot post)"
  then show "stripIconLinks (pre @ [LBRACKET] @ icon @ [RBRACKET, LPAREN] @ url @ [RPAREN] @ post) =
      pre @ stripIconLinks post"
    by (intro stripIconLinks_markup) blast+
next
  assume "\<forall>k<length ln. matchFileLink (drop k ln) = None"
  then show "collapseFileLinks ln = ln" by (rule collapseFileLinks_no_match)
next
  assume "\<forall>k<length ln. matchIconLink (drop k ln) = None"
  then show "stripIconLinks ln = ln" by (rule stripIconLinks_no_match)
qed

theorem link_substitutions_witness:
  "collapseFileLinks
     (js ''see '' @ [LBRACKET, QUOTE] @ js ''src/a.ts'' @ [QUOTE] @ js ''(x)'' @ PAGE_ICON @
      [RBRACKET] @ js '' ok'') =
   js ''see '' @ [LBRACKET] @ js ''src/a.ts '' @ PAGE_ICON @ [RBRACKET] @ js '' ok'' \<and>
   stripIconLinks
     (js ''see '' @ [LBRACKET] @ LINK_ICON @ [RBRACKET, LPAREN] @ js ''http://x'' @ [RPAREN] @
      js '' ok'') =
   js ''see  ok'' \<and>
   substituteLine \<lparr>showLink = False, codeBlockHighlightType = prettytserr\<rparr> (js ''plain text'') =
     js ''plain text''"
proof -
  let ?post = "js '' ok''"
  have post: "LBRACKET \<notin> set ?post" by simp
  note thm1 = link_substitutions
    [where pre = "js ''see ''" and target = "js ''src/a.ts''" and mid = "js ''(x)''"
       and post = ?post and icon = LINK_ICON and url = "js ''http://x''" and ln = ?post]
  have mid: "\<forall>k. 0 < k \<and> k < length (js ''(x)'') \<longrightarrow>
           \<not> prefix (PAGE_ICON @ [RBRACKET]) (drop k (js ''(x)'' @ (PAGE_ICON @ [RBRACKET]) @ ?post))"
    by (auto simp: PAGE_ICON_def less_Suc_eq)
  have dots: "\<forall>c\<in>set (js ''(x)''). isDot c" "\<forall>c\<in>set (js ''http://x''). isDot c"
    by (simp_all add: isDot_def)
  have c_post: "collapseFileLinks ?post = ?post"
    using thm1 no_bracket_no_file_link [OF post] by blast
  have s_post: "stripIconLinks ?post = ?post"
    using thm1 no_bracket_no_icon_link [OF post] by blast
  have 1: "collapseFileLinks
     (js ''see '' @ [LBRACKET, QUOTE] @ js ''src/a.ts'' @ [QUOTE] @ js ''(x)'' @ PAGE_ICON @
      [RBRACKET] @ ?post) =
     js ''see '' @ [LBRACKET] @ js ''src/a.ts'' @ [SPACE] @ PAGE_ICON @ [RBRACKET] @ ?post"
    using thm1 [THEN conjunct2, THEN conjunct2, THEN conjunct1] mid dots c_post by simp
  have 2: "stripIconLinks
     (js ''see '' @ [LBRACKET] @ LINK_ICON @ [RBRACKET, LPAREN] @ js ''http://x'' @ [RPAREN] @
      ?post) = js ''see '' @ ?post"
    using thm1 [THEN conjunct2, THEN conjunct2, THEN conjunct2, THEN conjunct2, THEN conjunct1]
      dots s_post
    by (simp add: isDot_def)
  let ?plain = "js ''plain text''"
  have plain: "LBRACKET \<notin> set ?plain" by simp
  note thm2 = link_substitutions
    [where ln = ?plain and opt = "\<lparr>showLink = False, codeBlockHighlightType = prettytserr\<rparr>"]
  have "collapseFileLinks ?plain = ?plain" "stripIconLinks ?plain = ?plain"
    using thm2 no_bracket_no_file_link [OF plain] no_bracket_no_icon_link [OF plain]
    by blast+
  moreover have "substituteLine \<lparr>showLink = False, codeBlockHighlightType = prettytserr\<rparr> ?plain =
      retagFence \<lparr>showLink = False, codeBlockHighlightType = prettytserr\<rparr>
        (stripIconLinks (collapseFileLinks ?plain))"
    using thm2 [THEN conjunct2, THEN conjunct1] by simp
  ultimately have 3:
    "substituteLine \<lparr>showLink = False, codeBlockHighlightType = prettytserr\<rparr> ?plain = ?plain"
    by (simp add: retagFence_def fenceTag_def isSpace_def)
  from 1 2 3 show ?thesis by simp
qed

text \<open>
  C7. The file-link expression matches from the leftmost bracket that admits a match,
  and the escape sequences that \<open>format\<close> itself has put on the line by then hold a
  bracket: on the first line (the colour) and after every recoloured backtick span, the
  match starts in the escape sequence, and the file name is lost: what is kept is the
  rest of the escape sequence with the word after it. Without a bracket before it the
  same link is collapsed to the file name and the icon.
\<close>

theorem file_link_lost_after_bracket:
  "formatLine \<lparr>showLink = False, codeBlockHighlightType = prettytserr\<rparr> (Some Error) 0
     (js ''## See '' @ [LBRACKET, QUOTE] @ js ''src/a.ts'' @ [QUOTE] @ js '' x'' @ PAGE_ICON @
      [RBRACKET]) =
   [ESC] @ js ''[1;31mSee '' @ PAGE_ICON @ [RBRACKET] @ [ESC] @ js ''[0m'' \<and>
   formatLine \<lparr>showLink = False, codeBlockHighlightType = prettytserr\<rparr> (Some Error) 1
     (replaceBackticksExceptCodeBlocks
        (js ''use '' @ [BACKTICK] @ js ''foo'' @ [BACKTICK] @ js '' of '' @ [LBRACKET, QUOTE] @
         js ''src/a.ts'' @ [QUOTE] @ js '' x'' @ PAGE_ICON @ [RBRACKET])) =
   js ''use '' @ [ESC] @ js ''[1;34mfoo'' @ [ESC] @ js ''[0m '' @ PAGE_ICON @ [RBRACKET] \<and>
   formatLine \<lparr>showLink = False, codeBlockHighlightType = prettytserr\<rparr> (Some Error) 1
     (replaceBackticksExceptCodeBlocks
        (js ''use foo of '' @ [LBRACKET, QUOTE] @
         js ''src/a.ts'' @ [QUOTE] @ js '' x'' @ PAGE_ICON @ [RBRACKET])) =
   js ''use foo of '' @ [LBRACKET] @ js ''src/a.ts '' @ PAGE_ICON @ [RBRACKET]"
  by (simp add: formatLine_def substituteLine_def retagFence_def fenceTag_def error_def
        replaceBackticksExceptCodeBlocks_def matchCodeBlock_def matchBacktickSpan_def
        highlight_def matchFileLink_def linkTail_def matchIconLink_def
        PAGE_ICON_def LINK_ICON_def WEB_ICON_def isDot_def isSpace_def)

section \<open>Properties of the first line\<close>






end
